theory Spec2Isabelle
  imports Main
begin

section \<open>Go strings\<close>

text \<open>
  A Go string is a sequence of bytes, and so is a HOL \<open>string\<close>. The functions of package
  \<open>strings\<close> that the transcoder uses are modelled on bytes; every pattern and cutset the
  program passes is ASCII, for which the byte-wise and the rune-wise readings coincide.
\<close>

definition HasPrefix :: "string \<Rightarrow> string \<Rightarrow> bool" where
  "HasPrefix s p = (take (length p) s = p)"

definition HasSuffix :: "string \<Rightarrow> string \<Rightarrow> bool" where
  "HasSuffix s p = (length p \<le> length s \<and> drop (length s - length p) s = p)"

definition TrimSuffix :: "string \<Rightarrow> string \<Rightarrow> string" where
  "TrimSuffix s p = (if HasSuffix s p then take (length s - length p) s else s)"

fun Contains :: "string \<Rightarrow> string \<Rightarrow> bool" where
  "Contains [] sub = (sub = [])"
| "Contains (c # cs) sub = (HasPrefix (c # cs) sub \<or> Contains cs sub)"

text \<open>Leftmost, non-overlapping replacement of a non-empty pattern.\<close>

fun replaceFrom :: "string \<Rightarrow> string \<Rightarrow> string \<Rightarrow> string" where
  "replaceFrom [] old new = []"
| "replaceFrom (c # cs) old new =
     (if old \<noteq> [] \<and> HasPrefix (c # cs) old
      then new @ replaceFrom (drop (length old) (c # cs)) old new
      else c # replaceFrom cs old new)"

text \<open>
  \<open>strings.ReplaceAll\<close>. An empty pattern matches before every character and at the end
  (no call site of the program passes one).
\<close>

definition ReplaceAll :: "string \<Rightarrow> string \<Rightarrow> string \<Rightarrow> string" where
  "ReplaceAll s old new =
     (if old = [] then new @ concat (map (\<lambda>c. c # new) s) else replaceFrom s old new)"

definition TrimRight :: "string \<Rightarrow> string \<Rightarrow> string" where
  "TrimRight s cutset = rev (dropWhile (\<lambda>c. c \<in> set cutset) (rev s))"

section \<open>errors.go: the error taxonomy\<close>

type_synonym ErrorType = string

definition ErrorTypeFFmpegNotFound :: ErrorType where
  "ErrorTypeFFmpegNotFound = ''ffmpeg_not_found''"
definition ErrorTypeGPUNotAvailable :: ErrorType where
  "ErrorTypeGPUNotAvailable = ''gpu_not_available''"
definition ErrorTypeEncoderNotFound :: ErrorType where
  "ErrorTypeEncoderNotFound = ''encoder_not_found''"
definition ErrorTypeInvalidPreset :: ErrorType where
  "ErrorTypeInvalidPreset = ''invalid_preset''"
definition ErrorTypeInvalidFilePath :: ErrorType where
  "ErrorTypeInvalidFilePath = ''invalid_file_path''"
definition ErrorTypeEncodingFailed :: ErrorType where
  "ErrorTypeEncodingFailed = ''encoding_failed''"
definition ErrorTypeFileSystemError :: ErrorType where
  "ErrorTypeFileSystemError = ''file_system_error''"

text \<open>
  The values of Go's \<open>error\<close> interface that occur in the program: a \<open>*TranscoderError\<close>
  (type, message, optional cause), an error made by \<open>fmt.Errorf\<close> (its text), and an error
  handed over by the operating system or the standard library (its text, e.g. the
  \<open>exit status 1\<close> of a failed process). A nil error is \<open>None\<close> of \<open>error option\<close>.
\<close>

datatype error =
    TranscoderError ErrorType string "error option"
  | Errorf string
  | ExternalError string

fun Error :: "error \<Rightarrow> string" where
  "Error (TranscoderError ty m (Some cause)) = ty @ '': '' @ m @ '' (caused by: '' @ Error cause @ '')''"
| "Error (TranscoderError ty m None) = ty @ '': '' @ m"
| "Error (Errorf m) = m"
| "Error (ExternalError m) = m"

definition NewTranscoderError :: "ErrorType \<Rightarrow> string \<Rightarrow> error option \<Rightarrow> error" where
  "NewTranscoderError errorType message cause = TranscoderError errorType message cause"

fun IsTranscoderError :: "error option \<Rightarrow> ErrorType \<Rightarrow> bool" where
  "IsTranscoderError (Some (TranscoderError ty m c)) errorType = (ty = errorType)"
| "IsTranscoderError _ errorType = False"

section \<open>system.go: platforms\<close>

datatype Platform = PlatformUnknown | PlatformNVIDIA | PlatformAppleSilicon | PlatformSoftware

text \<open>\<open>runtime.GOOS\<close> and \<open>runtime.GOARCH\<close> are fixed per build; they are parameters here.\<close>

definition detectPlatform :: "string \<Rightarrow> string \<Rightarrow> Platform" where
  "detectPlatform goos goarch =
     (if goos = ''darwin'' \<and> goarch = ''arm64'' then PlatformAppleSilicon else PlatformUnknown)"

section \<open>presets.go: the preset registry\<close>

record Preset =
  Name :: string
  Resolution :: string
  Codec :: string
  Encoder :: string
  Bitrate :: string
  Description :: string
  Args :: "string list"
  Platform :: Platform

definition nvencPresets :: "(string \<times> Preset) list" where
  "nvencPresets = [
    (''720p_av1'', \<lparr>Name = ''720p_av1'', Resolution = ''1280x720'', Codec = ''AV1'',
       Encoder = ''av1_nvenc'', Bitrate = ''2M'', Description = ''720p AV1 encoding with NVENC'',
       Args = [''-c:v'', ''av1_nvenc'', ''-preset'', ''p7'', ''-crf'', ''28'', ''-b:v'', ''2M'',
               ''-maxrate'', ''3M'', ''-bufsize'', ''6M'', ''-vf'', ''scale=1280:720''],
       Platform = PlatformNVIDIA\<rparr>),
    (''1080p_av1'', \<lparr>Name = ''1080p_av1'', Resolution = ''1920x1080'', Codec = ''AV1'',
       Encoder = ''av1_nvenc'', Bitrate = ''4M'', Description = ''1080p AV1 encoding with NVENC'',
       Args = [''-c:v'', ''av1_nvenc'', ''-preset'', ''p7'', ''-crf'', ''26'', ''-b:v'', ''4M'',
               ''-maxrate'', ''6M'', ''-bufsize'', ''12M'', ''-vf'', ''scale=1920:1080''],
       Platform = PlatformNVIDIA\<rparr>),
    (''720p_h264'', \<lparr>Name = ''720p_h264'', Resolution = ''1280x720'', Codec = ''H.264'',
       Encoder = ''h264_nvenc'', Bitrate = ''3M'', Description = ''720p H.264 encoding with NVENC'',
       Args = [''-c:v'', ''h264_nvenc'', ''-preset'', ''p7'', ''-crf'', ''23'', ''-b:v'', ''3M'',
               ''-maxrate'', ''4M'', ''-bufsize'', ''8M'', ''-vf'', ''scale=1280:720''],
       Platform = PlatformNVIDIA\<rparr>),
    (''1080p_h264'', \<lparr>Name = ''1080p_h264'', Resolution = ''1920x1080'', Codec = ''H.264'',
       Encoder = ''h264_nvenc'', Bitrate = ''5M'', Description = ''1080p H.264 encoding with NVENC'',
       Args = [''-c:v'', ''h264_nvenc'', ''-preset'', ''p7'', ''-crf'', ''23'', ''-b:v'', ''5M'',
               ''-maxrate'', ''8M'', ''-bufsize'', ''16M'', ''-vf'', ''scale=1920:1080''],
       Platform = PlatformNVIDIA\<rparr>),
    (''1080p_h265'', \<lparr>Name = ''1080p_h265'', Resolution = ''1920x1080'', Codec = ''H.265'',
       Encoder = ''hevc_nvenc'', Bitrate = ''3M'', Description = ''1080p H.265 encoding with NVENC'',
       Args = [''-c:v'', ''hevc_nvenc'', ''-preset'', ''p7'', ''-crf'', ''26'', ''-b:v'', ''3M'',
               ''-maxrate'', ''5M'', ''-bufsize'', ''10M'', ''-vf'', ''scale=1920:1080''],
       Platform = PlatformNVIDIA\<rparr>),
    (''4k_av1'', \<lparr>Name = ''4k_av1'', Resolution = ''3840x2160'', Codec = ''AV1'',
       Encoder = ''av1_nvenc'', Bitrate = ''15M'', Description = ''4K AV1 encoding with NVENC'',
       Args = [''-c:v'', ''av1_nvenc'', ''-preset'', ''p7'', ''-crf'', ''28'', ''-b:v'', ''15M'',
               ''-maxrate'', ''20M'', ''-bufsize'', ''40M'', ''-vf'', ''scale=3840:2160''],
       Platform = PlatformNVIDIA\<rparr>),
    (''4k_h265'', \<lparr>Name = ''4k_h265'', Resolution = ''3840x2160'', Codec = ''H.265'',
       Encoder = ''hevc_nvenc'', Bitrate = ''20M'', Description = ''4K H.265 encoding with NVENC'',
       Args = [''-c:v'', ''hevc_nvenc'', ''-preset'', ''p7'', ''-crf'', ''26'', ''-b:v'', ''20M'',
               ''-maxrate'', ''30M'', ''-bufsize'', ''60M'', ''-vf'', ''scale=3840:2160''],
       Platform = PlatformNVIDIA\<rparr>)]"

definition appleSiliconPresets :: "(string \<times> Preset) list" where
  "appleSiliconPresets = [
    (''720p_av1'', \<lparr>Name = ''720p_av1'', Resolution = ''1280x720'', Codec = ''AV1'',
       Encoder = ''libsvtav1'', Bitrate = ''2M'',
       Description = ''720p AV1 encoding (software, optimized for Apple Silicon)'',
       Args = [''-c:v'', ''libsvtav1'', ''-preset'', ''6'', ''-crf'', ''28'', ''-b:v'', ''2M'',
               ''-maxrate'', ''3M'', ''-bufsize'', ''6M'', ''-vf'', ''scale=1280:720''],
       Platform = PlatformAppleSilicon\<rparr>),
    (''1080p_av1'', \<lparr>Name = ''1080p_av1'', Resolution = ''1920x1080'', Codec = ''AV1'',
       Encoder = ''libsvtav1'', Bitrate = ''4M'',
       Description = ''1080p AV1 encoding (software, optimized for Apple Silicon)'',
       Args = [''-c:v'', ''libsvtav1'', ''-preset'', ''6'', ''-crf'', ''26'', ''-b:v'', ''4M'',
               ''-maxrate'', ''6M'', ''-bufsize'', ''12M'', ''-vf'', ''scale=1920:1080''],
       Platform = PlatformAppleSilicon\<rparr>),
    (''720p_h264'', \<lparr>Name = ''720p_h264'', Resolution = ''1280x720'', Codec = ''H.264'',
       Encoder = ''h264_videotoolbox'', Bitrate = ''3M'',
       Description = ''720p H.264 encoding with VideoToolbox'',
       Args = [''-c:v'', ''h264_videotoolbox'', ''-q:v'', ''65'', ''-b:v'', ''3M'',
               ''-maxrate'', ''4M'', ''-bufsize'', ''8M'', ''-vf'', ''scale=1280:720''],
       Platform = PlatformAppleSilicon\<rparr>),
    (''1080p_h264'', \<lparr>Name = ''1080p_h264'', Resolution = ''1920x1080'', Codec = ''H.264'',
       Encoder = ''h264_videotoolbox'', Bitrate = ''5M'',
       Description = ''1080p H.264 encoding with VideoToolbox'',
       Args = [''-c:v'', ''h264_videotoolbox'', ''-q:v'', ''65'', ''-b:v'', ''5M'',
               ''-maxrate'', ''8M'', ''-bufsize'', ''16M'', ''-vf'', ''scale=1920:1080''],
       Platform = PlatformAppleSilicon\<rparr>),
    (''1080p_h265'', \<lparr>Name = ''1080p_h265'', Resolution = ''1920x1080'', Codec = ''H.265'',
       Encoder = ''hevc_videotoolbox'', Bitrate = ''3M'',
       Description = ''1080p H.265 encoding with VideoToolbox'',
       Args = [''-c:v'', ''hevc_videotoolbox'', ''-q:v'', ''65'', ''-b:v'', ''3M'',
               ''-maxrate'', ''5M'', ''-bufsize'', ''10M'', ''-vf'', ''scale=1920:1080''],
       Platform = PlatformAppleSilicon\<rparr>),
    (''4k_av1'', \<lparr>Name = ''4k_av1'', Resolution = ''3840x2160'', Codec = ''AV1'',
       Encoder = ''libsvtav1'', Bitrate = ''15M'',
       Description = ''4K AV1 encoding (software, optimized for Apple Silicon)'',
       Args = [''-c:v'', ''libsvtav1'', ''-preset'', ''5'', ''-crf'', ''28'', ''-b:v'', ''15M'',
               ''-maxrate'', ''20M'', ''-bufsize'', ''40M'', ''-vf'', ''scale=3840:2160''],
       Platform = PlatformAppleSilicon\<rparr>),
    (''4k_h265'', \<lparr>Name = ''4k_h265'', Resolution = ''3840x2160'', Codec = ''H.265'',
       Encoder = ''hevc_videotoolbox'', Bitrate = ''20M'',
       Description = ''4K H.265 encoding with VideoToolbox'',
       Args = [''-c:v'', ''hevc_videotoolbox'', ''-q:v'', ''60'', ''-b:v'', ''20M'',
               ''-maxrate'', ''30M'', ''-bufsize'', ''60M'', ''-vf'', ''scale=3840:2160''],
       Platform = PlatformAppleSilicon\<rparr>)]"

text \<open>
  A Go map is a finite map. Copying a map literal into \<open>presets\<close> key by key overrides
  \<open>presets\<close> with the literal; the keys of each literal are distinct, so the order of the
  copy does not matter.
\<close>

definition addNVIDIAPresets :: "(string \<rightharpoonup> Preset) \<Rightarrow> (string \<rightharpoonup> Preset)" where
  "addNVIDIAPresets presets = presets ++ map_of nvencPresets"

definition addAppleSiliconPresets :: "(string \<rightharpoonup> Preset) \<Rightarrow> (string \<rightharpoonup> Preset)" where
  "addAppleSiliconPresets presets = presets ++ map_of appleSiliconPresets"

definition GetPresets :: "string \<Rightarrow> string \<Rightarrow> (string \<rightharpoonup> Preset)" where
  "GetPresets goos goarch =
     (case detectPlatform goos goarch of
        PlatformAppleSilicon \<Rightarrow> addAppleSiliconPresets Map.empty
      | _ \<Rightarrow> addNVIDIAPresets Map.empty)"

definition IsValidPreset :: "string \<Rightarrow> string \<Rightarrow> string \<Rightarrow> bool" where
  "IsValidPreset goos goarch preset = (GetPresets goos goarch preset \<noteq> None)"

definition GetPresetsForPlatform :: "string \<Rightarrow> string \<Rightarrow> Platform \<Rightarrow> (string \<rightharpoonup> Preset)" where
  "GetPresetsForPlatform goos goarch platform =
     (\<lambda>name. case GetPresets goos goarch name of
                None \<Rightarrow> None
              | Some preset \<Rightarrow> if Platform preset = platform then Some preset else None)"

section \<open>transcoder.go: software realisation of a preset\<close>

text \<open>The loop returns the element after the first \<open>-vf\<close> that has a successor.\<close>

fun extractScaleFilter :: "string list \<Rightarrow> string" where
  "extractScaleFilter (arg # next # rest) =
     (if arg = ''-vf'' then next else extractScaleFilter (next # rest))"
| "extractScaleFilter _ = ''scale=-1:-1''"

definition softwareCodec :: "string \<Rightarrow> string \<times> string \<times> string" where
  "softwareCodec encoder =
     (if encoder = ''h264_nvenc'' then (''libx264'', ''23'', ''medium'')
      else if encoder = ''hevc_nvenc'' then (''libx265'', ''26'', ''medium'')
      else if encoder = ''av1_nvenc'' then (''libx264'', ''18'', ''slower'')
      else if encoder = ''h264_videotoolbox'' then (''libx264'', ''23'', ''medium'')
      else if encoder = ''hevc_videotoolbox'' then (''libx265'', ''26'', ''medium'')
      else if encoder = ''libsvtav1'' then (''libx264'', ''18'', ''slower'')
      else (''libx264'', ''23'', ''medium''))"

definition convertToSoftwarePreset :: "Preset \<Rightarrow> string list" where
  "convertToSoftwarePreset preset =
     (let (codec, crf, presetName) = softwareCodec (Encoder preset);
          args = [''-c:v'', codec, ''-preset'', presetName, ''-crf'', crf,
                  ''-vf'', extractScaleFilter (Args preset)]
      in if Bitrate preset \<noteq> ''''
         then args @ [''-b:v'', Bitrate preset, ''-maxrate'', Bitrate preset,
                      ''-bufsize'', Bitrate preset]
         else args)"

section \<open>The environment: operating system, path library, external encoder\<close>

text \<open>
  The program talks to the file system, to Go's OS-dependent path library and to the external
  \<open>ffmpeg\<close> process. None of these is code of the repository; they are parameters of the
  model, collected in one record. \<open>'w\<close> is the state of the outside world (file system,
  working directory): observations read it, and creating directories, running \<open>ffmpeg\<close>
  and writing an analytics row return the world they leave behind. Running \<open>ffmpeg\<close> with
  an argument vector gives the new world, the error of \<open>cmd.Run()\<close> (nil on exit status 0)
  and the text the process wrote to its diagnostic stream.
\<close>

record FileInfo =
  IsDir :: bool
  Size :: int

type_synonym DirEntry = "string \<times> bool"

record 'w env =
  filepath_Base :: "string \<Rightarrow> string"
  filepath_Ext :: "string \<Rightarrow> string"
  filepath_Dir :: "string \<Rightarrow> string"
  filepath_Join :: "string list \<Rightarrow> string"
  filepath_Rel :: "string \<Rightarrow> string \<Rightarrow> error + string"
  filepath_Abs :: "'w \<Rightarrow> string \<Rightarrow> error + string"
  strings_ToLower :: "string \<Rightarrow> string"
  os_Stat :: "'w \<Rightarrow> string \<Rightarrow> error + FileInfo"
  os_ReadDir :: "'w \<Rightarrow> string \<Rightarrow> error + DirEntry list"
  filepath_Walk :: "'w \<Rightarrow> string \<Rightarrow> (string \<times> bool \<times> error option) list"
  os_MkdirAll :: "'w \<Rightarrow> string \<Rightarrow> 'w \<times> error option"
  exec_ffmpeg :: "'w \<Rightarrow> string list \<Rightarrow> 'w \<times> error option \<times> string"
  csv_Write :: "'w \<Rightarrow> string \<Rightarrow> string \<Rightarrow> string \<Rightarrow> 'w \<times> error option"

text \<open>
  A \<open>DirEntry\<close> is the name of a directory entry and whether it is a directory.
  \<open>filepath_Walk\<close> lists the calls \<open>filepath.Walk\<close> makes to its callback, in order: the
  path, whether it is a directory, and the error Walk passes in. \<open>csv_Write\<close> appends one
  analytics row and flushes; of the row only the file name, the preset name and the status are
  arguments here (the other columns are timestamps and sizes formatted as floating-point text).
\<close>

section \<open>File discovery\<close>

definition videoExtensions :: "string list" where
  "videoExtensions = [''.mp4'', ''.mkv'', ''.avi'', ''.mov'', ''.wmv'', ''.flv'', ''.webm'',
                      ''.m4v'', ''.3gp'', ''.ts'', ''.mts'', ''.m2ts'']"

definition isVideoFile :: "'w env \<Rightarrow> string \<Rightarrow> bool" where
  "isVideoFile E filename = (strings_ToLower E (filepath_Ext E filename) \<in> set videoExtensions)"

text \<open>The callback given to \<open>filepath.Walk\<close>: an incoming error is returned and ends the walk.\<close>

fun walkFiles :: "'w env \<Rightarrow> (string \<times> bool \<times> error option) list \<Rightarrow> string list
                  \<Rightarrow> string list \<times> error option" where
  "walkFiles E [] files = (files, None)"
| "walkFiles E ((path, isDir, err) # rest) files =
     (case err of
        Some e \<Rightarrow> (files, Some e)
      | None \<Rightarrow> walkFiles E rest (if \<not> isDir \<and> isVideoFile E path then files @ [path] else files))"

fun listFiles :: "'w env \<Rightarrow> string \<Rightarrow> DirEntry list \<Rightarrow> string list \<Rightarrow> string list" where
  "listFiles E inputPath [] files = files"
| "listFiles E inputPath ((name, isDir) # entries) files =
     listFiles E inputPath entries
       (if \<not> isDir \<and> isVideoFile E (filepath_Join E [inputPath, name])
        then files @ [filepath_Join E [inputPath, name]] else files)"

definition FindVideoFiles :: "'w env \<Rightarrow> 'w \<Rightarrow> string \<Rightarrow> bool \<Rightarrow> string list \<times> error option" where
  "FindVideoFiles E w inputPath recursive =
     (case os_Stat E w inputPath of
        Inl err \<Rightarrow> ([], Some (NewTranscoderError ErrorTypeFileSystemError
                                ''cannot access input path'' (Some err)))
      | Inr info \<Rightarrow>
          if IsDir info then
            if recursive then walkFiles E (filepath_Walk E w inputPath) []
            else (case os_ReadDir E w inputPath of
                    Inl err \<Rightarrow> ([], Some (NewTranscoderError ErrorTypeFileSystemError
                                            ''cannot read directory'' (Some err)))
                  | Inr entries \<Rightarrow> (listFiles E inputPath entries [], None))
          else (if isVideoFile E inputPath then [inputPath] else [], None))"

section \<open>Path validation and sanitising\<close>

fun checkProblematicChars :: "string \<Rightarrow> string list \<Rightarrow> error option" where
  "checkProblematicChars filename [] = None"
| "checkProblematicChars filename (char # chars) =
     (if Contains filename char
      then Some (NewTranscoderError ErrorTypeInvalidFilePath
                   ''filename contains problematic character'' None)
      else checkProblematicChars filename chars)"

definition ValidateFilePath :: "'w env \<Rightarrow> string \<Rightarrow> error option" where
  "ValidateFilePath E path =
     (if length path > 260 then None
      else checkProblematicChars (filepath_Base E path)
             [''<'', ''>'', '':'', [CHR 0x22], ''|'', ''?'', ''*''])"

definition longPathPrefix :: string where
  "longPathPrefix = [CHR 0x5C, CHR 0x5C, CHR ''?'', CHR 0x5C]"

definition SanitizeWindowsPath :: "'w env \<Rightarrow> 'w \<Rightarrow> string \<Rightarrow> string" where
  "SanitizeWindowsPath E w path =
     (if length path > 260 \<and> \<not> HasPrefix path longPathPrefix
      then (case filepath_Abs E w path of
              Inr absPath \<Rightarrow> longPathPrefix @ absPath
            | Inl err \<Rightarrow> path)
      else path)"

definition problematicChars :: "(string \<times> string) list" where
  "problematicChars =
     [(''<'', ''''), (''>'', ''''), ('':'', ''''), ([CHR 0x22], ''''), (''|'', ''''),
      (''?'', ''''), (''*'', ''''), (''/'', ''_''), ([CHR 0x5C], ''_'')]"

definition reservedChars :: string where
  "reservedChars = concat (map fst problematicChars)"

definition replaceStep :: "string \<times> string \<Rightarrow> string \<Rightarrow> string" where
  "replaceStep = (\<lambda>(old, new) cleaned. ReplaceAll cleaned old new)"

text \<open>
  Go iterates over a map in an order that changes from run to run. An iteration order is a
  list that holds exactly the entries of the map literal; \<open>SanitizeFilename\<close> takes the
  order of its replacement loop as an argument.
\<close>

definition iterationOrder :: "(string \<times> string) list \<Rightarrow> bool" where
  "iterationOrder order = (distinct order \<and> set order = set problematicChars)"

definition SanitizeFilename :: "(string \<times> string) list \<Rightarrow> string \<Rightarrow> string" where
  "SanitizeFilename order filename =
     (let cleaned = fold replaceStep order filename;
          cleaned = ReplaceAll cleaned ''..'' ''_'';
          cleaned = ReplaceAll cleaned ''...'' ''_'';
          cleaned = (if length cleaned > 180 then take 180 cleaned else cleaned)
      in TrimRight cleaned ''. '')"

text \<open>
  The result does not depend on the iteration order (lemma \<open>SanitizeFilename_order\<close> below),
  so the callers use the order of the map literal.
\<close>

definition GenerateOutputPath :: "'w env \<Rightarrow> 'w \<Rightarrow> string \<Rightarrow> string \<Rightarrow> string \<Rightarrow> Preset \<Rightarrow> string" where
  "GenerateOutputPath E w inputPath outputDir inputBasePath preset =
     (let filename = filepath_Base E inputPath;
          nameWithoutExt = TrimSuffix filename (filepath_Ext E filename);
          nameWithoutExt = SanitizeFilename problematicChars nameWithoutExt;
          ext = ''.mkv'';
          outputFilename = nameWithoutExt @ ''_'' @ Name preset @ ext
      in case os_Stat E w inputBasePath of
           Inr info \<Rightarrow>
             if IsDir info then
               (case filepath_Rel E inputBasePath (filepath_Dir E inputPath) of
                  Inr relPath \<Rightarrow>
                    if relPath \<noteq> ''.'' then filepath_Join E [outputDir, relPath, outputFilename]
                    else filepath_Join E [outputDir, outputFilename]
                | Inl err \<Rightarrow> filepath_Join E [outputDir, outputFilename])
             else filepath_Join E [outputDir, outputFilename]
         | Inl err \<Rightarrow> filepath_Join E [outputDir, outputFilename])"

section \<open>transcoder.go: configuration, transcoder and program state\<close>

record Config =
  InputPath :: string
  OutputDir :: string
  Preset :: string
  GPUIndex :: int
  AudioCodec :: string
  Verbose :: bool
  Recursive :: bool
  Overwrite :: bool
  NoGPU :: bool
  DryRun :: bool
  SkipValidation :: bool

text \<open>
  Of the transcoder's fields the model keeps the configuration, the platform stored in its
  system checker, and the preset map; the file-discovery and path helpers carry no state.
\<close>

record Transcoder =
  config :: Config
  platform :: Platform
  presets :: "string \<rightharpoonup> Preset"

text \<open>
  What the program writes to standard output, one constructor per \<open>fmt.Printf\<close> call of
  \<open>transcoder.go\<close>, with the arguments that are strings or counts (durations and percentages
  are left out).
\<close>

datatype message =
    Probing
  | Skipping string
  | Processing string string
  | Running string "string list"
  | Completed string
  | HardwareFailedVerbose
  | HardwareFailed string
  | SafeFallbackSucceeded string
  | SoftwareFallbackSucceeded string
  | Progress nat nat
  | CompletedWithErrors nat
  | ErrorLine string
  | CsvWarning string

text \<open>
  The state threaded through the program: the outside world, the argument vectors of all
  \<open>ffmpeg\<close> processes run so far (oldest first), and the lines printed so far.
\<close>

record 'w state =
  world :: 'w
  invocations :: "string list list"
  stdout :: "message list"

definition printf :: "message \<Rightarrow> 'w state \<Rightarrow> 'w state" where
  "printf m s = s\<lparr>stdout := stdout s @ [m]\<rparr>"

text \<open>\<open>exec.Command("ffmpeg", args...).Run()\<close>: the error, the diagnostic text, the new state.\<close>

definition runFFmpeg :: "'w env \<Rightarrow> 'w state \<Rightarrow> string list \<Rightarrow> error option \<times> string \<times> 'w state" where
  "runFFmpeg E s args =
     (case exec_ffmpeg E (world s) args of
        (w, err, stderrText) \<Rightarrow>
          (err, stderrText, s\<lparr>world := w, invocations := invocations s @ [args]\<rparr>))"

definition buildFFmpegArgs :: "Transcoder \<Rightarrow> string \<Rightarrow> string \<Rightarrow> Preset \<Rightarrow> bool \<Rightarrow> string list" where
  "buildFFmpegArgs t inputPath outputPath preset useHardware =
     (let args = [''-hide_banner'', ''-loglevel'', ''warning''];
          args = (if useHardware then
                    (case platform t of
                       PlatformAppleSilicon \<Rightarrow> args @ [''-hwaccel'', ''videotoolbox'']
                     | PlatformNVIDIA \<Rightarrow> args @ [''-hwaccel'', ''auto'']
                     | _ \<Rightarrow> args)
                  else args);
          args = args @ [''-i'', inputPath];
          args = (if useHardware \<and> (Platform preset = platform t \<or> Platform preset = PlatformUnknown)
                  then args @ Args preset
                  else args @ convertToSoftwarePreset preset);
          args = (if AudioCodec (config t) = '''' \<or> AudioCodec (config t) = ''copy''
                  then args @ [''-c:a'', ''copy'']
                  else args @ [''-c:a'', AudioCodec (config t), ''-b:a'', ''128k''])
      in args @ [''-y'', outputPath])"

definition createSafeFallbackArgs :: "string \<Rightarrow> string \<Rightarrow> string list" where
  "createSafeFallbackArgs inputPath outputPath =
     [''-hide_banner'', ''-loglevel'', ''error'', ''-i'', inputPath, ''-c:v'', ''libx264'',
      ''-preset'', ''medium'', ''-crf'', ''23'', ''-c:a'', ''copy'', ''-y'', outputPath]"

definition probeArgs :: "string \<Rightarrow> string list" where
  "probeArgs inputPath =
     [''-hide_banner'', ''-loglevel'', ''error'', ''-i'', inputPath, ''-f'', ''null'',
      ''-t'', ''1'', ''-'']"

definition probeInputFile :: "'w env \<Rightarrow> 'w state \<Rightarrow> string \<Rightarrow> error option \<times> 'w state" where
  "probeInputFile E s inputPath =
     (case runFFmpeg E s (probeArgs inputPath) of
        (Some err, stderrOutput, s') \<Rightarrow>
          (Some (NewTranscoderError ErrorTypeEncodingFailed ''input file probe failed''
                   (Some (Errorf (Error err @ [CHR 0x0A] @ ''FFmpeg output: '' @ stderrOutput)))), s')
      | (None, stderrOutput, s') \<Rightarrow> (None, s'))"

text \<open>
  The diagnostic text of the primary attempt arrives as \<open>stderrOutput\<close>; the software tier
  collects its own in \<open>softwareStderr\<close>; the safe tier's command has no \<open>Stderr\<close> writer, so
  its text is dropped.
\<close>

definition handleEncodingError ::
  "'w env \<Rightarrow> Transcoder \<Rightarrow> 'w state \<Rightarrow> error \<Rightarrow> string \<Rightarrow> string \<Rightarrow> string \<Rightarrow> Preset
   \<Rightarrow> error option \<times> 'w state" where
  "handleEncodingError E t s ffmpegErr stderrOutput inputPath outputPath preset =
     (if \<not> NoGPU (config t) then
        (let s = (if Verbose (config t) then printf HardwareFailedVerbose s
                  else printf (HardwareFailed (filepath_Base E inputPath)) s);
             softwareArgs = buildFFmpegArgs t inputPath outputPath preset False
         in case runFFmpeg E s softwareArgs of
              (Some err, softwareStderr, s) \<Rightarrow>
                (let safeArgs = createSafeFallbackArgs inputPath outputPath
                 in case runFFmpeg E s safeArgs of
                      (Some safeErr, dropped, s) \<Rightarrow>
                        (Some (NewTranscoderError ErrorTypeEncodingFailed
                                 (''all encoding attempts failed for '' @ inputPath) (Some safeErr)), s)
                    | (None, dropped, s) \<Rightarrow>
                        (None, printf (SafeFallbackSucceeded (filepath_Base E inputPath)) s))
            | (None, softwareStderr, s) \<Rightarrow>
                (None, printf (SoftwareFallbackSucceeded (filepath_Base E inputPath)) s))
      else (Some (NewTranscoderError ErrorTypeEncodingFailed
                    (''encoding failed for '' @ inputPath) (Some ffmpegErr)), s))"

text \<open>The closing lines of \<open>processFile\<close>: the sizes are looked up and the summary printed.\<close>

definition reportCompleted :: "'w env \<Rightarrow> 'w state \<Rightarrow> string \<Rightarrow> string \<Rightarrow> 'w state" where
  "reportCompleted E s inputPath outputPath =
     (case (os_Stat E (world s) inputPath, os_Stat E (world s) outputPath) of
        (Inr inputInfo, Inr outputInfo) \<Rightarrow> printf (Completed (filepath_Base E inputPath)) s
      | _ \<Rightarrow> s)"

text \<open>
  \<open>processFile\<close> is written in two parts. \<open>processFile_encode\<close> is its second half, from the
  comment \<open>Build FFmpeg command\<close> to the end: the primary attempt, the fallback on its
  failure, and the summary. It runs in hardware mode unless \<open>NoGPU\<close> is set.
\<close>

definition processFile_encode ::
  "'w env \<Rightarrow> Transcoder \<Rightarrow> 'w state \<Rightarrow> string \<Rightarrow> string \<Rightarrow> Preset \<Rightarrow> error option \<times> 'w state" where
  "processFile_encode E t s inputPath outputPath preset =
     (let args = buildFFmpegArgs t inputPath outputPath preset (\<not> NoGPU (config t));
          s = (if Verbose (config t)
               then printf (Running (if NoGPU (config t) then ''software'' else ''hardware'') args) s
               else s)
      in case runFFmpeg E s args of
           (Some ffmpegErr, stderrOutput, s) \<Rightarrow>
             (case handleEncodingError E t s ffmpegErr stderrOutput inputPath outputPath preset of
                (Some err, s) \<Rightarrow> (Some err, s)
              | (None, s) \<Rightarrow> (None, reportCompleted E s inputPath outputPath))
         | (None, stderrOutput, s) \<Rightarrow> (None, reportCompleted E s inputPath outputPath))"

definition processFile :: "'w env \<Rightarrow> Transcoder \<Rightarrow> 'w state \<Rightarrow> string \<Rightarrow> error option \<times> 'w state" where
  "processFile E t s inputPath =
     (case presets t (Preset (config t)) of
        None \<Rightarrow> (Some (NewTranscoderError ErrorTypeInvalidPreset
                         (''preset '' @ Preset (config t) @ '' not found'') None), s)
      | Some preset \<Rightarrow>
         (let inputPath = SanitizeWindowsPath E (world s) inputPath
          in case ValidateFilePath E inputPath of
               Some err \<Rightarrow> (Some (Errorf (''invalid file path: '' @ Error err)), s)
             | None \<Rightarrow>
                (let s = (if Verbose (config t) then printf Probing s else s)
                 in case probeInputFile E s inputPath of
                      (Some err, s) \<Rightarrow>
                        (Some (Errorf (''input file validation failed: '' @ Error err)), s)
                    | (None, s) \<Rightarrow>
                       (let outputPath = GenerateOutputPath E (world s) inputPath
                                           (OutputDir (config t)) (InputPath (config t)) preset;
                            outputPath = SanitizeWindowsPath E (world s) outputPath
                        in if \<not> Overwrite (config t) \<and> \<not> isl (os_Stat E (world s) outputPath)
                           then (None, if Verbose (config t) then printf (Skipping inputPath) s else s)
                           else
                            (let outputDir = filepath_Dir E outputPath
                             in case os_MkdirAll E (world s) outputDir of
                                  (w, Some err) \<Rightarrow>
                                    (Some (NewTranscoderError ErrorTypeFileSystemError
                                             ''failed to create output directory'' (Some err)),
                                     s\<lparr>world := w\<rparr>)
                                | (w, None) \<Rightarrow>
                                   (let s = s\<lparr>world := w\<rparr>;
                                        s = (if Verbose (config t)
                                             then printf (Processing inputPath outputPath) s else s)
                                    in processFile_encode E t s inputPath outputPath preset))))))"

text \<open>
  \<open>processFileWithAnalytics\<close>: \<open>csvWriter\<close> tells whether a CSV writer was given. After a
  success the source works out the output path once more and reads the file sizes; these
  reads only feed the size columns of the analytics row and are left out, as are the clock
  readings.
\<close>

definition processFileWithAnalytics ::
  "'w env \<Rightarrow> Transcoder \<Rightarrow> 'w state \<Rightarrow> string \<Rightarrow> bool \<Rightarrow> error option \<times> 'w state" where
  "processFileWithAnalytics E t s inputPath csvWriter =
     (case os_Stat E (world s) inputPath of
        Inl err \<Rightarrow> (Some (NewTranscoderError ErrorTypeFileSystemError
                            ''failed to get input file info'' (Some err)), s)
      | Inr inputInfo \<Rightarrow>
         (case processFile E t s inputPath of
            (err, s) \<Rightarrow>
              (let filename = filepath_Base E inputPath;
                   status = (if err \<noteq> None then ''error'' else ''success'')
               in if csvWriter then
                    (case csv_Write E (world s) filename (Preset (config t)) status of
                       (w, Some writeErr) \<Rightarrow> (err, printf (CsvWarning (Error writeErr)) (s\<lparr>world := w\<rparr>))
                     | (w, None) \<Rightarrow> (err, s\<lparr>world := w\<rparr>))
                  else (err, s))))"

section \<open>transcoder.go: the batch loops\<close>

definition reportErrors :: "error list \<Rightarrow> 'w state \<Rightarrow> error option \<times> 'w state" where
  "reportErrors errors s =
     (if length errors > 0
      then (Some (Errorf ''transcoding completed with errors''),
            fold (\<lambda>err. printf (ErrorLine (Error err))) errors
              (printf (CompletedWithErrors (length errors)) s))
      else (None, s))"

fun ProcessFiles_loop ::
  "'w env \<Rightarrow> Transcoder \<Rightarrow> string list \<Rightarrow> error list \<Rightarrow> 'w state \<Rightarrow> error list \<times> 'w state" where
  "ProcessFiles_loop E t [] errors s = (errors, s)"
| "ProcessFiles_loop E t (file # files) errors s =
     (case processFile E t s file of
        (Some err, s') \<Rightarrow> ProcessFiles_loop E t files (errors @ [err]) s'
      | (None, s') \<Rightarrow> ProcessFiles_loop E t files errors s')"

definition ProcessFiles :: "'w env \<Rightarrow> Transcoder \<Rightarrow> 'w state \<Rightarrow> string list \<Rightarrow> error option \<times> 'w state" where
  "ProcessFiles E t s files =
     (case ProcessFiles_loop E t files [] s of (errors, s') \<Rightarrow> reportErrors errors s')"

text \<open>The loop with progress lines; \<open>totalFiles\<close> is \<open>total\<close> of the source and \<open>i\<close> is the index of the first file of the remaining list.\<close>

fun ProcessFilesWithProgress_loop ::
  "'w env \<Rightarrow> Transcoder \<Rightarrow> bool \<Rightarrow> nat \<Rightarrow> nat \<Rightarrow> string list \<Rightarrow> error list \<Rightarrow> 'w state
   \<Rightarrow> error list \<times> 'w state" where
  "ProcessFilesWithProgress_loop E t csvWriter totalFiles i [] errors s = (errors, s)"
| "ProcessFilesWithProgress_loop E t csvWriter totalFiles i (file # files) errors s =
     (case processFileWithAnalytics E t s file csvWriter of
        (err, s') \<Rightarrow>
          ProcessFilesWithProgress_loop E t csvWriter totalFiles (i + 1) files
            (case err of Some e \<Rightarrow> errors @ [e] | None \<Rightarrow> errors)
            (printf (Progress (i + 1) totalFiles) s'))"

definition ProcessFilesWithProgress ::
  "'w env \<Rightarrow> Transcoder \<Rightarrow> 'w state \<Rightarrow> string list \<Rightarrow> bool \<Rightarrow> error option \<times> 'w state" where
  "ProcessFilesWithProgress E t s files csvWriter =
     (case ProcessFilesWithProgress_loop E t csvWriter (length files) 0 files [] s of
        (errors, s') \<Rightarrow> reportErrors errors s')"

section \<open>The batch, file by file\<close>

text \<open>
  The batch as the specification words it: each element of the list is processed in turn, in
  the state its predecessor left, and the outcome of each is kept. \<open>runEach\<close> returns the
  outcomes of all elements and the final state; \<open>failures\<close> are the errors among them.
\<close>

fun runEach :: "('s \<Rightarrow> 'a \<Rightarrow> error option \<times> 's) \<Rightarrow> 's \<Rightarrow> 'a list \<Rightarrow> error option list \<times> 's" where
  "runEach step s [] = ([], s)"
| "runEach step s (x # xs) =
     (case step s x of
        (r, s') \<Rightarrow> (case runEach step s' xs of (rs, s'') \<Rightarrow> (r # rs, s'')))"

fun failures :: "error option list \<Rightarrow> error list" where
  "failures [] = []"
| "failures (None # rs) = failures rs"
| "failures (Some e # rs) = e # failures rs"

definition progressStep ::
  "'w env \<Rightarrow> Transcoder \<Rightarrow> bool \<Rightarrow> nat \<Rightarrow> 'w state \<Rightarrow> nat \<times> string \<Rightarrow> error option \<times> 'w state" where
  "progressStep E t csvWriter totalFiles s x =
     (case processFileWithAnalytics E t s (snd x) csvWriter of
        (r, s') \<Rightarrow> (r, printf (Progress (fst x + 1) totalFiles) s'))"

fun isProgress :: "message \<Rightarrow> bool" where
  "isProgress (Progress completed totalFiles) = True"
| "isProgress _ = False"

section \<open>A scripted environment\<close>

text \<open>
  For evaluating the program on concrete inputs: the path functions as Go defines them on a
  Unix system, and a scripted outside world in the manner of the mock executor of the
  repository's tests. The world is the list of the regular files that exist; \<open>ok\<close> decides
  from the argument vector whether an \<open>ffmpeg\<close> run succeeds; a failing run exits with
  status 1 after writing \<open>diag\<close> to its diagnostic stream. Every directory can be created,
  every analytics row can be written, and nothing is a directory; \<open>Rel\<close>, \<open>Abs\<close>,
  \<open>ReadDir\<close> and \<open>Walk\<close>, which the inputs evaluated below (short paths, a single input
  file) never reach, answer with an error or an empty walk.
\<close>

definition unix_Base :: "string \<Rightarrow> string" where
  "unix_Base path =
     (if path = [] then ''.''
      else (let stripped = rev (dropWhile (\<lambda>c. c = CHR ''/'') (rev path));
                element = rev (takeWhile (\<lambda>c. c \<noteq> CHR ''/'') (rev stripped))
            in if element = [] then ''/'' else element))"

definition unix_Ext :: "string \<Rightarrow> string" where
  "unix_Ext path =
     (let element = rev (takeWhile (\<lambda>c. c \<noteq> CHR ''/'') (rev path))
      in if CHR ''.'' \<in> set element
         then CHR ''.'' # rev (takeWhile (\<lambda>c. c \<noteq> CHR ''.'') (rev element))
         else [])"

text \<open>
  \<open>Dir\<close> and \<open>Join\<close> for operands that are already clean (no empty, \<open>.\<close> or \<open>..\<close>
  elements, no trailing slash), where Go's \<open>Clean\<close> changes nothing.
\<close>

definition unix_Dir :: "string \<Rightarrow> string" where
  "unix_Dir path =
     (let dir = rev (drop 1 (dropWhile (\<lambda>c. c \<noteq> CHR ''/'') (rev path)))
      in if dir \<noteq> [] then dir
         else if HasPrefix path ''/'' then ''/'' else ''.'')"

fun unix_Join :: "string list \<Rightarrow> string" where
  "unix_Join [] = []"
| "unix_Join (e # es) =
     (if e = [] then unix_Join es
      else if unix_Join es = [] then e else e @ ''/'' @ unix_Join es)"

definition ascii_ToLower :: "string \<Rightarrow> string" where
  "ascii_ToLower s =
     map (\<lambda>c. if (65::nat) \<le> of_char c \<and> (of_char c :: nat) \<le> 90
              then char_of ((of_char c :: nat) + 32) else c) s"

definition scripted :: "(string list \<Rightarrow> bool) \<Rightarrow> string \<Rightarrow> (string list) env" where
  "scripted ok diag =
     \<lparr>filepath_Base = unix_Base,
      filepath_Ext = unix_Ext,
      filepath_Dir = unix_Dir,
      filepath_Join = unix_Join,
      filepath_Rel = (\<lambda>basepath targpath. Inl (ExternalError ''Rel: cannot make path relative'')),
      filepath_Abs = (\<lambda>w path. Inl (ExternalError ''getwd: no such file or directory'')),
      strings_ToLower = ascii_ToLower,
      os_Stat = (\<lambda>w path. if path \<in> set w then Inr \<lparr>IsDir = False, Size = 1\<rparr>
                           else Inl (ExternalError (''stat '' @ path @ '': no such file or directory''))),
      os_ReadDir = (\<lambda>w path. Inl (ExternalError (''open '' @ path @ '': not a directory''))),
      filepath_Walk = (\<lambda>w path. []),
      os_MkdirAll = (\<lambda>w path. (w, None)),
      exec_ffmpeg = (\<lambda>w args. if ok args then (w, None, [])
                                else (w, Some (ExternalError ''exit status 1''), diag)),
      csv_Write = (\<lambda>w filename preset status. (w, None))\<rparr>"

definition initial :: "string list \<Rightarrow> (string list) state" where
  "initial files = \<lparr>world = files, invocations = [], stdout = []\<rparr>"

definition nvidiaTranscoder :: "string \<Rightarrow> bool \<Rightarrow> Transcoder" where
  "nvidiaTranscoder presetName noGPU =
     \<lparr>config = \<lparr>InputPath = ''in.mp4'', OutputDir = ''out'', Preset = presetName, GPUIndex = 0,
                 AudioCodec = ''copy'', Verbose = False, Recursive = False, Overwrite = False,
                 NoGPU = noGPU, DryRun = False, SkipValidation = False\<rparr>,
      platform = PlatformNVIDIA,
      presets = GetPresets ''linux'' ''amd64''\<rparr>"

section \<open>String lemmas\<close>

lemma HasPrefix_iff: "HasPrefix s p \<longleftrightarrow> (\<exists>b. s = p @ b)"
  unfolding HasPrefix_def
  by (metis append_eq_conv_conj append_take_drop_id)

lemma Contains_iff: "Contains s p \<longleftrightarrow> (\<exists>a b. s = a @ p @ b)"
proof (induction s)
  case Nil
  then show ?case by auto
next
  case (Cons c cs)
  show ?case
  proof
    assume "Contains (c # cs) p"
    then consider "HasPrefix (c # cs) p" | "Contains cs p" by auto
    then show "\<exists>a b. c # cs = a @ p @ b"
    proof cases
      case 1
      then obtain b where "c # cs = p @ b" by (auto simp: HasPrefix_iff)
      then have "c # cs = [] @ p @ b" by simp
      then show ?thesis by blast
    next
      case 2
      then obtain a b where "cs = a @ p @ b" using Cons.IH by auto
      then have "c # cs = (c # a) @ p @ b" by simp
      then show ?thesis by blast
    qed
  next
    assume "\<exists>a b. c # cs = a @ p @ b"
    then obtain a b where ab: "c # cs = a @ p @ b" by auto
    show "Contains (c # cs) p"
    proof (cases a)
      case Nil
      with ab have "HasPrefix (c # cs) p" by (auto simp: HasPrefix_iff)
      then show ?thesis by simp
    next
      case (Cons a1 as)
      with ab have "cs = as @ p @ b" by simp
      then have "Contains cs p" using Cons.IH by blast
      then show ?thesis by simp
    qed
  qed
qed

lemma Contains_take: "Contains (take n s) p \<Longrightarrow> Contains s p"
proof -
  assume "Contains (take n s) p"
  then obtain a b where "take n s = a @ p @ b" by (auto simp: Contains_iff)
  then have "s = a @ p @ (b @ drop n s)"
    by (metis append.assoc append_take_drop_id)
  then show ?thesis unfolding Contains_iff by blast
qed

lemma TrimRight_take: "\<exists>k. TrimRight s cs = take k s"
proof -
  let ?P = "\<lambda>c. c \<in> set cs"
  have "rev (dropWhile ?P (rev s)) @ rev (takeWhile ?P (rev s))
        = rev (takeWhile ?P (rev s) @ dropWhile ?P (rev s))"
    by (simp only: rev_append)
  also have "\<dots> = s" by simp
  finally have "s = TrimRight s cs @ rev (takeWhile ?P (rev s))" by (simp add: TrimRight_def)
  then show ?thesis by (metis append_eq_conv_conj)
qed

lemma TrimRight_idem: "TrimRight (TrimRight s cs) cs = TrimRight s cs"
  by (simp add: TrimRight_def)

lemma replaceFrom_absent: "\<not> Contains s old \<Longrightarrow> replaceFrom s old new = s"
  by (induction s) auto

lemma Contains_longer: "Contains s (p @ q) \<Longrightarrow> Contains s p"
  unfolding Contains_iff by (metis append.assoc)

lemma replaceFrom_dots_head:
  "replaceFrom s ''..'' ''_'' = CHR ''.'' # r \<Longrightarrow> \<exists>t. s = CHR ''.'' # t"
  by (cases s) (auto split: if_splits)

lemma replaceFrom_dots: "\<not> Contains (replaceFrom s ''..'' ''_'') ''..''"
proof (induction s "''..''" "''_''" rule: replaceFrom.induct)
  case 1
  then show ?case by simp
next
  case (2 c cs)
  show ?case
  proof (cases "HasPrefix (c # cs) ''..''")
    case True
    with 2 show ?thesis by (simp add: HasPrefix_def)
  next
    case False
    with 2 have ih: "\<not> Contains (replaceFrom cs ''..'' ''_'') ''..''" by simp
    have "\<not> HasPrefix (c # replaceFrom cs ''..'' ''_'') ''..''"
    proof
      assume "HasPrefix (c # replaceFrom cs ''..'' ''_'') ''..''"
      then obtain b where b: "c # replaceFrom cs ''..'' ''_'' = ''..'' @ b"
        by (auto simp: HasPrefix_iff)
      then have c: "c = CHR ''.''" and "replaceFrom cs ''..'' ''_'' = CHR ''.'' # b" by auto
      then obtain t where "cs = CHR ''.'' # t" using replaceFrom_dots_head by blast
      with c have "HasPrefix (c # cs) ''..''" by (simp add: HasPrefix_def)
      with False show False by simp
    qed
    with ih False show ?thesis by simp
  qed
qed


lemma set_replaceFrom: "set (replaceFrom s old new) \<subseteq> set s \<union> set new"
proof (induction s old new rule: replaceFrom.induct)
  case (1 old new)
  then show ?case by simp
next
  case (2 c cs old new)
  show ?case
  proof (cases "old \<noteq> [] \<and> HasPrefix (c # cs) old")
    case True
    then have "set (replaceFrom (drop (length old) (c # cs)) old new)
               \<subseteq> set (drop (length old) (c # cs)) \<union> set new"
      using 2 by blast
    moreover have "set (drop (length old) (c # cs)) \<subseteq> set (c # cs)"
      by (rule set_drop_subset)
    ultimately show ?thesis using True by auto
  next
    case False
    then show ?thesis using 2 by auto
  qed
qed

lemma replaceFrom_single:
  "replaceFrom s [c] new = concat (map (\<lambda>x. if x = c then new else [x]) s)"
  by (induction s) (auto simp: HasPrefix_def)

lemma ReplaceAll_single:
  "ReplaceAll s [c] new = concat (map (\<lambda>x. if x = c then new else [x]) s)"
  by (simp add: ReplaceAll_def replaceFrom_single)

lemma ReplaceAll_single_absent: "c \<notin> set s \<Longrightarrow> ReplaceAll s [c] new = s"
  by (induction s) (auto simp: ReplaceAll_single)

lemma ReplaceAll_single_append:
  "ReplaceAll (a @ b) [c] new = ReplaceAll a [c] new @ ReplaceAll b [c] new"
  by (simp add: ReplaceAll_single)

lemma set_ReplaceAll_single: "set (ReplaceAll s [c] new) \<subseteq> (set s - {c}) \<union> set new"
  by (auto simp: ReplaceAll_single split: if_splits)

section \<open>SanitizeFilename\<close>

text \<open>
  Every entry of the replacement map rewrites one reserved character to a text without
  reserved characters. Hence the loop over the map is a character-wise substitution, whatever
  the order of the entries.
\<close>

lemma problematicChars_all:
  "\<forall>p \<in> set problematicChars.
     (\<exists>c. fst p = [c]) \<and> set (fst p) \<subseteq> set reservedChars \<and>
     set (snd p) \<inter> set reservedChars = {}"
  by (simp add: problematicChars_def reservedChars_def)

lemma problematicChars_entry:
  assumes "(old, new) \<in> set problematicChars"
  shows "\<exists>c. old = [c] \<and> c \<in> set reservedChars \<and> set new \<inter> set reservedChars = {}"
proof -
  have "(\<exists>c. old = [c]) \<and> set old \<subseteq> set reservedChars \<and> set new \<inter> set reservedChars = {}"
    using problematicChars_all assms by fastforce
  then show ?thesis by auto
qed

lemma fold_clean:
  "set ord \<subseteq> set problematicChars \<Longrightarrow> set s \<inter> set reservedChars = {} \<Longrightarrow>
     fold replaceStep ord s = s"
proof (induction ord)
  case Nil
  then show ?case by simp
next
  case (Cons p ord)
  obtain old new where p: "p = (old, new)" by (cases p)
  with Cons.prems obtain c where c: "old = [c]" "c \<in> set reservedChars"
    using problematicChars_entry by fastforce
  with Cons.prems have "c \<notin> set s" by auto
  then have "replaceStep p s = s" using p c by (simp add: replaceStep_def ReplaceAll_single_absent)
  with Cons show ?case by simp
qed

lemma fold_reserved:
  "set ord \<subseteq> set problematicChars \<Longrightarrow>
     set (fold replaceStep ord s) \<inter> set reservedChars
       \<subseteq> set s \<inter> set reservedChars - set (concat (map fst ord))"
proof (induction ord arbitrary: s)
  case Nil
  then show ?case by simp
next
  case (Cons p ord)
  obtain old new where p: "p = (old, new)" by (cases p)
  with Cons.prems obtain c where c: "old = [c]" "set new \<inter> set reservedChars = {}"
    using problematicChars_entry by fastforce
  let ?s = "ReplaceAll s [c] new"
  have step: "set ?s \<inter> set reservedChars \<subseteq> set s \<inter> set reservedChars - {c}"
    using set_ReplaceAll_single [of s c new] c(2) by auto
  have "set (fold replaceStep ord ?s) \<inter> set reservedChars
          \<subseteq> set ?s \<inter> set reservedChars - set (concat (map fst ord))"
    using Cons by simp
  with step show ?case using p c by (auto simp: replaceStep_def)
qed

lemma fold_no_reserved:
  assumes "set ord = set problematicChars"
  shows "set (fold replaceStep ord s) \<inter> set reservedChars = {}"
proof -
  have "set (concat (map fst ord)) = set reservedChars"
    using assms by (simp add: reservedChars_def)
  then show ?thesis using fold_reserved [of ord s] assms by auto
qed

lemma fold_append:
  "set ord \<subseteq> set problematicChars \<Longrightarrow>
     fold replaceStep ord (a @ b) = fold replaceStep ord a @ fold replaceStep ord b"
proof (induction ord arbitrary: a b)
  case Nil
  then show ?case by simp
next
  case (Cons p ord)
  obtain old new where p: "p = (old, new)" by (cases p)
  with Cons.prems obtain c where c: "old = [c]"
    using problematicChars_entry by fastforce
  show ?case using Cons p c by (simp add: replaceStep_def ReplaceAll_single_append)
qed

lemma fold_Nil: "set ord \<subseteq> set problematicChars \<Longrightarrow> fold replaceStep ord [] = []"
  by (rule fold_clean) auto

lemma fold_concat:
  assumes "set ord \<subseteq> set problematicChars"
  shows "fold replaceStep ord s = concat (map (\<lambda>c. fold replaceStep ord [c]) s)"
proof (induction s)
  case Nil
  then show ?case using assms by (simp add: fold_Nil)
next
  case (Cons c cs)
  have "fold replaceStep ord (c # cs) = fold replaceStep ord ([c] @ cs)" by simp
  also have "\<dots> = fold replaceStep ord [c] @ fold replaceStep ord cs"
    using assms by (rule fold_append)
  finally show ?case using Cons by simp
qed

lemma canonical_char:
  "(([c], new)) \<in> set problematicChars \<Longrightarrow> fold replaceStep problematicChars [c] = new"
  by (auto simp: problematicChars_def replaceStep_def ReplaceAll_single)

lemma fold_char:
  "set ord \<subseteq> set problematicChars \<Longrightarrow>
     fold replaceStep ord [c] =
       (if [c] \<in> fst ` set ord then fold replaceStep problematicChars [c] else [c])"
proof (induction ord)
  case Nil
  then show ?case by simp
next
  case (Cons p ord)
  obtain old new where p: "p = (old, new)" by (cases p)
  with Cons.prems have mem: "(old, new) \<in> set problematicChars" by simp
  then obtain k where k: "old = [k]" "set new \<inter> set reservedChars = {}"
    using problematicChars_entry by blast
  have sub: "set ord \<subseteq> set problematicChars" using Cons.prems by simp
  show ?case
  proof (cases "k = c")
    case True
    have "fold replaceStep (p # ord) [c] = fold replaceStep ord new"
      using p k True by (simp add: replaceStep_def ReplaceAll_single)
    also have "\<dots> = new" using sub k(2) by (rule fold_clean)
    also have "\<dots> = fold replaceStep problematicChars [c]"
      using mem k True canonical_char by simp
    finally show ?thesis using p k True by simp
  next
    case False
    have "fold replaceStep (p # ord) [c] = fold replaceStep ord [c]"
      using p k False by (simp add: replaceStep_def ReplaceAll_single)
    then show ?thesis using Cons.IH sub p k False by auto
  qed
qed

lemma fold_order:
  assumes "set o1 = set problematicChars" "set o2 = set problematicChars"
  shows "fold replaceStep o1 s = fold replaceStep o2 s"
proof -
  have "fold replaceStep o1 [c] = fold replaceStep o2 [c]" for c
    using assms by (simp add: fold_char)
  then show ?thesis
    using fold_concat [of o1 s] fold_concat [of o2 s] assms by simp
qed

lemma SanitizeFilename_order:
  "iterationOrder o1 \<Longrightarrow> iterationOrder o2 \<Longrightarrow> SanitizeFilename o1 x = SanitizeFilename o2 x"
  using fold_order [of o1 o2 x] by (simp add: SanitizeFilename_def iterationOrder_def)

lemma SanitizeFilename_alt:
  "SanitizeFilename ord x =
     TrimRight (take 180 (replaceFrom (fold replaceStep ord x) ''..'' ''_'')) ''. ''"
proof -
  let ?a = "replaceFrom (fold replaceStep ord x) ''..'' ''_''"
  have "\<not> Contains ?a ''...''"
    using replaceFrom_dots Contains_longer [of ?a "''..''" "''.''"] by auto
  then have "replaceFrom ?a ''...'' ''_'' = ?a" by (rule replaceFrom_absent)
  then show ?thesis by (simp add: SanitizeFilename_def ReplaceAll_def Let_def)
qed

lemma sanitized_fixed:
  assumes "set ord \<subseteq> set problematicChars"
    and "set y \<inter> set reservedChars = {}"
    and "\<not> Contains y ''..''"
    and "length y \<le> 180"
    and "TrimRight y ''. '' = y"
  shows "SanitizeFilename ord y = y"
proof -
  have "fold replaceStep ord y = y" using assms(1,2) by (rule fold_clean)
  moreover have "replaceFrom y ''..'' ''_'' = y" using assms(3) by (rule replaceFrom_absent)
  ultimately show ?thesis using assms(4,5) by (simp add: SanitizeFilename_alt)
qed

text \<open>
  Claim C7. \<open>SanitizeFilename\<close> is idempotent: sanitising a sanitised name changes
  nothing, for every input string and for whichever orders the two calls iterate over the
  replacement map in.
\<close>

theorem SanitizeFilename_idempotent:
  assumes "iterationOrder o1" and "iterationOrder o2"
  shows "SanitizeFilename o2 (SanitizeFilename o1 x) = SanitizeFilename o1 x"
proof -
  let ?f = "fold replaceStep o1 x"
  let ?a = "replaceFrom ?f ''..'' ''_''"
  let ?y = "TrimRight (take 180 ?a) ''. ''"
  have y: "SanitizeFilename o1 x = ?y" by (rule SanitizeFilename_alt)
  obtain k where tk: "?y = take k (take 180 ?a)" using TrimRight_take by blast
  have o1: "set o1 = set problematicChars" and o2: "set o2 \<subseteq> set problematicChars"
    using assms by (auto simp: iterationOrder_def)
  have "set ?f \<inter> set reservedChars = {}" using o1 by (rule fold_no_reserved)
  moreover have "set ?a \<subseteq> set ?f \<union> set ''_''" by (rule set_replaceFrom)
  moreover have "CHR ''_'' \<notin> set reservedChars"
    by (simp add: reservedChars_def problematicChars_def)
  ultimately have "set ?a \<inter> set reservedChars = {}" by auto
  moreover have "set ?y \<subseteq> set ?a"
  proof -
    have "set (take k (take 180 ?a)) \<subseteq> set (take 180 ?a)" by (rule set_take_subset)
    moreover have "set (take 180 ?a) \<subseteq> set ?a" by (rule set_take_subset)
    ultimately show ?thesis using tk by auto
  qed
  ultimately have p1: "set ?y \<inter> set reservedChars = {}" by auto
  have "\<not> Contains ?a ''..''" by (rule replaceFrom_dots)
  then have "\<not> Contains (take 180 ?a) ''..''" using Contains_take by blast
  then have "\<not> Contains (take k (take 180 ?a)) ''..''" using Contains_take by blast
  then have p2: "\<not> Contains ?y ''..''" using tk by simp
  have "length (take k (take 180 ?a)) \<le> 180" by simp
  then have p3: "length ?y \<le> 180" using tk by simp
  have p4: "TrimRight ?y ''. '' = ?y" by (rule TrimRight_idem)
  show ?thesis unfolding y using o2 p1 p2 p3 p4 by (rule sanitized_fixed)
qed

theorem SanitizeFilename_idempotent_witness:
  "iterationOrder problematicChars \<and> iterationOrder (rev problematicChars) \<and>
   SanitizeFilename problematicChars ''a/b:c...d. .'' = ''a_bc_.d'' \<and>
   SanitizeFilename (rev problematicChars) ''a_bc_.d'' = ''a_bc_.d''"
proof -
  have 1: "iterationOrder problematicChars"
    by (simp add: iterationOrder_def problematicChars_def)
  have 2: "iterationOrder (rev problematicChars)"
    using 1 by (simp add: iterationOrder_def)
  have 3: "SanitizeFilename problematicChars ''a/b:c...d. .'' = ''a_bc_.d''"
    by (simp add: SanitizeFilename_def problematicChars_def replaceStep_def ReplaceAll_def
        HasPrefix_def TrimRight_def)
  show ?thesis
    using 1 2 3 SanitizeFilename_idempotent [OF 1 2, of "''a/b:c...d. .''"] by simp
qed

section \<open>Software realisation of a preset\<close>

lemma extractScaleFilter_found:
  "''-vf'' \<notin> set before \<Longrightarrow> extractScaleFilter (before @ ''-vf'' # v # rest) = v"
proof (induction before)
  case Nil
  then show ?case by simp
next
  case (Cons b bs)
  then have ih: "extractScaleFilter (bs @ ''-vf'' # v # rest) = v" and b: "b \<noteq> ''-vf''" by auto
  obtain y ys where "bs @ ''-vf'' # v # rest = y # ys" by (cases bs) auto
  then show ?case using ih b by simp
qed

lemma extractScaleFilter_default:
  "''-vf'' \<notin> set (butlast args) \<Longrightarrow> extractScaleFilter args = ''scale=-1:-1''"
  by (induction args rule: extractScaleFilter.induct) (auto split: if_splits)

lemma convertToSoftwarePreset_shape:
  "convertToSoftwarePreset p =
     [''-c:v'', fst (softwareCodec (Encoder p)), ''-preset'', snd (snd (softwareCodec (Encoder p))),
      ''-crf'', fst (snd (softwareCodec (Encoder p))), ''-vf'', extractScaleFilter (Args p)] @
     (if Bitrate p \<noteq> [] then [''-b:v'', Bitrate p, ''-maxrate'', Bitrate p, ''-bufsize'', Bitrate p]
      else [])"
  by (simp add: convertToSoftwarePreset_def Let_def split: prod.split)

text \<open>
  Claim C3. For a preset whose encoder is an AV1 encoder (\<open>av1_nvenc\<close> or \<open>libsvtav1\<close>)
  the software arguments select software H.264 (\<open>libx264\<close>) at the slower, higher-quality
  profile (preset \<open>slower\<close>, CRF 18), where every other encoder gets preset \<open>medium\<close> at
  CRF 23 or 26. For every preset the arguments go on with the scale filter, which is the value
  that follows the first \<open>-vf\<close> flag of the preset's own argument list, copied as it is, or
  the sentinel \<open>scale=-1:-1\<close> when no \<open>-vf\<close> has a value; and they end with the preset's
  bitrate field as target (\<open>-b:v\<close>), ceiling (\<open>-maxrate\<close>) and buffer size, when the
  preset has a bitrate.
\<close>

theorem convertToSoftwarePreset_software:
  "(Encoder p = ''av1_nvenc'' \<or> Encoder p = ''libsvtav1'' \<longrightarrow>
      take 6 (convertToSoftwarePreset p) =
        [''-c:v'', ''libx264'', ''-preset'', ''slower'', ''-crf'', ''18'']) \<and>
   (Encoder p \<noteq> ''av1_nvenc'' \<and> Encoder p \<noteq> ''libsvtav1'' \<longrightarrow>
      take 6 (convertToSoftwarePreset p) =
        [''-c:v'', ''libx264'', ''-preset'', ''medium'', ''-crf'', ''23''] \<or>
      take 6 (convertToSoftwarePreset p) =
        [''-c:v'', ''libx265'', ''-preset'', ''medium'', ''-crf'', ''26'']) \<and>
   take 2 (drop 6 (convertToSoftwarePreset p)) = [''-vf'', extractScaleFilter (Args p)] \<and>
   (Bitrate p \<noteq> [] \<longrightarrow>
      drop 8 (convertToSoftwarePreset p) =
        [''-b:v'', Bitrate p, ''-maxrate'', Bitrate p, ''-bufsize'', Bitrate p]) \<and>
   (Bitrate p = [] \<longrightarrow> drop 8 (convertToSoftwarePreset p) = []) \<and>
   (\<forall>before v rest. Args p = before @ ''-vf'' # v # rest \<and> ''-vf'' \<notin> set before \<longrightarrow>
      extractScaleFilter (Args p) = v) \<and>
   (''-vf'' \<notin> set (butlast (Args p)) \<longrightarrow> extractScaleFilter (Args p) = ''scale=-1:-1'')"
proof -
  have "softwareCodec (Encoder p) = (''libx264'', ''18'', ''slower'')"
    if "Encoder p = ''av1_nvenc'' \<or> Encoder p = ''libsvtav1''"
    using that by (auto simp: softwareCodec_def)
  then have a: "Encoder p = ''av1_nvenc'' \<or> Encoder p = ''libsvtav1'' \<longrightarrow>
      take 6 (convertToSoftwarePreset p) =
        [''-c:v'', ''libx264'', ''-preset'', ''slower'', ''-crf'', ''18'']"
    by (auto simp: convertToSoftwarePreset_shape)
  have "softwareCodec (Encoder p) = (''libx264'', ''23'', ''medium'') \<or>
        softwareCodec (Encoder p) = (''libx265'', ''26'', ''medium'')"
    if "Encoder p \<noteq> ''av1_nvenc'' \<and> Encoder p \<noteq> ''libsvtav1''"
    using that by (simp add: softwareCodec_def)
  then have b: "Encoder p \<noteq> ''av1_nvenc'' \<and> Encoder p \<noteq> ''libsvtav1'' \<longrightarrow>
      take 6 (convertToSoftwarePreset p) =
        [''-c:v'', ''libx264'', ''-preset'', ''medium'', ''-crf'', ''23''] \<or>
      take 6 (convertToSoftwarePreset p) =
        [''-c:v'', ''libx265'', ''-preset'', ''medium'', ''-crf'', ''26'']"
    by (auto simp: convertToSoftwarePreset_shape)
  have c: "take 2 (drop 6 (convertToSoftwarePreset p)) = [''-vf'', extractScaleFilter (Args p)]"
    by (simp add: convertToSoftwarePreset_shape)
  have d: "Bitrate p \<noteq> [] \<longrightarrow>
      drop 8 (convertToSoftwarePreset p) =
        [''-b:v'', Bitrate p, ''-maxrate'', Bitrate p, ''-bufsize'', Bitrate p]"
    by (simp add: convertToSoftwarePreset_shape)
  have e: "Bitrate p = [] \<longrightarrow> drop 8 (convertToSoftwarePreset p) = []"
    by (simp add: convertToSoftwarePreset_shape)
  have f: "\<forall>before v rest. Args p = before @ ''-vf'' # v # rest \<and> ''-vf'' \<notin> set before \<longrightarrow>
      extractScaleFilter (Args p) = v"
    using extractScaleFilter_found by simp
  have g: "''-vf'' \<notin> set (butlast (Args p)) \<longrightarrow> extractScaleFilter (Args p) = ''scale=-1:-1''"
    using extractScaleFilter_default by simp
  from a b c d e f g show ?thesis by blast
qed


theorem convertToSoftwarePreset_software_witness:
  "Encoder (snd (hd nvencPresets)) = ''av1_nvenc'' \<and>
   convertToSoftwarePreset (snd (hd nvencPresets)) =
     [''-c:v'', ''libx264'', ''-preset'', ''slower'', ''-crf'', ''18'', ''-vf'', ''scale=1280:720'',
      ''-b:v'', ''2M'', ''-maxrate'', ''2M'', ''-bufsize'', ''2M''] \<and>
   Encoder (snd (nvencPresets ! 2)) = ''h264_nvenc'' \<and>
   take 6 (convertToSoftwarePreset (snd (nvencPresets ! 2))) =
     [''-c:v'', ''libx264'', ''-preset'', ''medium'', ''-crf'', ''23''] \<and>
   convertToSoftwarePreset
     \<lparr>Name = ''plain'', Resolution = [], Codec = ''H.264'', Encoder = ''libx264'', Bitrate = [],
      Description = [], Args = [''-an'', ''-vf''], Platform = PlatformUnknown\<rparr> =
     [''-c:v'', ''libx264'', ''-preset'', ''medium'', ''-crf'', ''23'', ''-vf'', ''scale=-1:-1'']"
  using convertToSoftwarePreset_software [of "snd (hd nvencPresets)"]
    convertToSoftwarePreset_software [of "snd (nvencPresets ! 2)"]
    convertToSoftwarePreset_software
      [of "\<lparr>Name = ''plain'', Resolution = [], Codec = ''H.264'', Encoder = ''libx264'',
            Bitrate = [], Description = [], Args = [''-an'', ''-vf''],
            Platform = PlatformUnknown\<rparr>"]
  by (simp add: nvencPresets_def convertToSoftwarePreset_shape softwareCodec_def)

section \<open>The preset registry\<close>

lemma dom_nvencPresets:
  "dom (map_of nvencPresets) =
     {''720p_av1'', ''1080p_av1'', ''720p_h264'', ''1080p_h264'', ''1080p_h265'', ''4k_av1'', ''4k_h265''}"
  by (simp add: dom_map_of_conv_image_fst nvencPresets_def)

lemma dom_appleSiliconPresets:
  "dom (map_of appleSiliconPresets) =
     {''720p_av1'', ''1080p_av1'', ''720p_h264'', ''1080p_h264'', ''1080p_h265'', ''4k_av1'', ''4k_h265''}"
  by (simp add: dom_map_of_conv_image_fst appleSiliconPresets_def)

lemma dom_GetPresets:
  "dom (GetPresets goos goarch) =
     {''720p_av1'', ''1080p_av1'', ''720p_h264'', ''1080p_h264'', ''1080p_h265'', ''4k_av1'', ''4k_h265''}"
  by (simp add: GetPresets_def addNVIDIAPresets_def addAppleSiliconPresets_def
      dom_nvencPresets dom_appleSiliconPresets split: Platform.split)

text \<open>
  Claim C8. Whatever the build platform, every preset that \<open>GetPresetsForPlatform\<close> returns
  for a platform \<open>P\<close> is a preset of the registry whose \<open>Platform\<close> field is \<open>P\<close>; and the
  NVIDIA catalog and the Apple Silicon catalog have the same set of preset names, so that the
  registry has the same names on every build platform.
\<close>

theorem GetPresetsForPlatform_platform:
  "(\<forall>name preset. GetPresetsForPlatform goos goarch P name = Some preset \<longrightarrow>
      Platform preset = P \<and> GetPresets goos goarch name = Some preset) \<and>
   dom (addNVIDIAPresets Map.empty) = dom (addAppleSiliconPresets Map.empty) \<and>
   dom (GetPresets goos goarch) = dom (GetPresets goos' goarch')"
proof -
  have "Platform preset = P \<and> GetPresets goos goarch name = Some preset"
    if "GetPresetsForPlatform goos goarch P name = Some preset" for name preset
    using that by (auto simp: GetPresetsForPlatform_def split: option.splits if_splits)
  moreover have "dom (addNVIDIAPresets Map.empty) = dom (addAppleSiliconPresets Map.empty)"
    by (simp add: addNVIDIAPresets_def addAppleSiliconPresets_def
        dom_nvencPresets dom_appleSiliconPresets)
  moreover have "dom (GetPresets goos goarch) = dom (GetPresets goos' goarch')"
    by (simp only: dom_GetPresets)
  ultimately show ?thesis by blast
qed

lemma NVIDIA_1080p_h264:
  "GetPresetsForPlatform ''linux'' ''amd64'' PlatformNVIDIA ''1080p_h264'' =
     Some (snd (nvencPresets ! 3))"
  by (simp add: GetPresetsForPlatform_def GetPresets_def detectPlatform_def
      addNVIDIAPresets_def nvencPresets_def)

theorem GetPresetsForPlatform_platform_witness:
  "GetPresetsForPlatform ''linux'' ''amd64'' PlatformNVIDIA ''1080p_h264''
     = Some (snd (nvencPresets ! 3)) \<and>
   Platform (snd (nvencPresets ! 3)) = PlatformNVIDIA \<and>
   GetPresets ''linux'' ''amd64'' ''1080p_h264'' = Some (snd (nvencPresets ! 3)) \<and>
   dom (GetPresets ''linux'' ''amd64'') = dom (GetPresets ''darwin'' ''arm64'')"
  using GetPresetsForPlatform_platform
    [of "''linux''" "''amd64''" PlatformNVIDIA "''darwin''" "''arm64''"] NVIDIA_1080p_h264
  by blast

section \<open>ValidateFilePath\<close>

text \<open>
  A path of at most 260 bytes whose base name holds a reserved character is rejected; a
  longer path is accepted before its characters are looked at.
\<close>

lemma checkProblematicChars_found:
  "char \<in> set chars \<Longrightarrow> Contains filename char \<Longrightarrow>
     checkProblematicChars filename chars =
       Some (NewTranscoderError ErrorTypeInvalidFilePath
               ''filename contains problematic character'' None)"
  by (induction chars) auto

lemma Contains_char: "Contains s [c] \<longleftrightarrow> c \<in> set s"
  by (induction s) (auto simp: HasPrefix_def)

lemma ValidateFilePath_short:
  "length path \<le> 260 \<Longrightarrow> c \<in> set (filepath_Base E path) \<Longrightarrow>
   c \<in> {CHR ''<'', CHR ''>'', CHR '':'', CHR 0x22, CHR ''|'', CHR ''?'', CHR ''*''} \<Longrightarrow>
     ValidateFilePath E path =
       Some (NewTranscoderError ErrorTypeInvalidFilePath
               ''filename contains problematic character'' None)"
  unfolding ValidateFilePath_def
  by (simp only: leD if_False) (rule checkProblematicChars_found [where char = "[c]"],
      auto simp: Contains_char)

lemma ValidateFilePath_long: "length path > 260 \<Longrightarrow> ValidateFilePath E path = None"
  by (simp add: ValidateFilePath_def)

lemma unix_Base_plain:
  assumes "p \<noteq> []" and "CHR ''/'' \<notin> set p"
  shows "unix_Base p = p"
proof -
  have all: "\<forall>c \<in> set (rev p). c \<noteq> CHR ''/''" using assms(2) by auto
  have "rev p \<noteq> []" using assms(1) by simp
  then obtain x xs where x: "rev p = x # xs" by (cases "rev p") auto
  with all have "x \<noteq> CHR ''/''" by auto
  with x have d: "dropWhile (\<lambda>c. c = CHR ''/'') (rev p) = rev p" by simp
  have t: "takeWhile (\<lambda>c. c \<noteq> CHR ''/'') (rev p) = rev p"
    using all by (simp add: takeWhile_eq_all_conv)
  show ?thesis using assms(1) by (simp add: unix_Base_def d t)
qed

lemma long_name_length: "length (replicate 257 (CHR ''a'') @ ''<.mp4'') = 262"
  by simp

lemma long_name_base:
  "unix_Base (replicate 257 (CHR ''a'') @ ''<.mp4'') = replicate 257 (CHR ''a'') @ ''<.mp4''"
  by (rule unix_Base_plain) auto

text \<open>
  Claim C4 says that a reserved character in the base name is rejected regardless of the
  length of the path. The code returns nil for a path of more than 260 bytes before the
  character check: the 262-byte path made of 257 letters \<open>a\<close> and \<open><.mp4\<close>, whose base name
  holds \<open><\<close>, is accepted, while the short path \<open>a<.mp4\<close> is rejected with
  \<open>invalid_file_path\<close>.
\<close>

theorem ValidateFilePath_long_path_unchecked:
  "length (replicate 257 (CHR ''a'') @ ''<.mp4'') = 262 \<and>
   CHR ''<'' \<in> set (unix_Base (replicate 257 (CHR ''a'') @ ''<.mp4'')) \<and>
   ValidateFilePath (scripted (\<lambda>args. True) []) (replicate 257 (CHR ''a'') @ ''<.mp4'') = None \<and>
   ValidateFilePath (scripted (\<lambda>args. True) []) ''a<.mp4'' =
     Some (TranscoderError ''invalid_file_path'' ''filename contains problematic character'' None)"
proof -
  have 1: "CHR ''<'' \<in> set (unix_Base (replicate 257 (CHR ''a'') @ ''<.mp4''))"
    by (simp only: long_name_base) simp
  have "length (replicate 257 (CHR ''a'') @ ''<.mp4'') > 260"
    by (simp only: long_name_length)
  then have 2: "ValidateFilePath (scripted (\<lambda>args. True) [])
                  (replicate 257 (CHR ''a'') @ ''<.mp4'') = None"
    by (rule ValidateFilePath_long)
  have "filepath_Base (scripted (\<lambda>args. True) []) ''a<.mp4'' = ''a<.mp4''"
    by (simp add: scripted_def unix_Base_plain)
  then have 3: "ValidateFilePath (scripted (\<lambda>args. True) []) ''a<.mp4'' =
     Some (TranscoderError ''invalid_file_path'' ''filename contains problematic character'' None)"
    by (simp add: ValidateFilePath_def HasPrefix_def NewTranscoderError_def
        ErrorTypeInvalidFilePath_def)
  from long_name_length 1 2 3 show ?thesis by (intro conjI)
qed

section \<open>File discovery\<close>

text \<open>
  Claim C10. When the input path names a single file that is not a directory and whose
  lowercased extension is not one of the twelve allowlisted extensions, \<open>FindVideoFiles\<close>
  returns the empty list and a nil error.
\<close>

theorem FindVideoFiles_unsupported_extension:
  assumes "os_Stat E w inputPath = Inr info"
    and "\<not> IsDir info"
    and "strings_ToLower E (filepath_Ext E inputPath) \<notin> set videoExtensions"
  shows "FindVideoFiles E w inputPath recursive = ([], None)"
  using assms by (simp add: FindVideoFiles_def isVideoFile_def)

theorem FindVideoFiles_unsupported_extension_witness:
  "os_Stat (scripted (\<lambda>args. True) []) [''notes.TXT''] ''notes.TXT''
     = Inr \<lparr>IsDir = False, Size = 1\<rparr> \<and>
   strings_ToLower (scripted (\<lambda>args. True) [])
     (filepath_Ext (scripted (\<lambda>args. True) []) ''notes.TXT'') = ''.txt'' \<and>
   ''.txt'' \<notin> set videoExtensions \<and>
   FindVideoFiles (scripted (\<lambda>args. True) []) [''notes.TXT''] ''notes.TXT'' False = ([], None)"
proof -
  let ?E = "scripted (\<lambda>args. True) []"
  have 1: "os_Stat ?E [''notes.TXT''] ''notes.TXT'' = Inr \<lparr>IsDir = False, Size = 1\<rparr>"
    by (simp add: scripted_def)
  have 2: "\<not> IsDir \<lparr>IsDir = False, Size = 1\<rparr>" by simp
  have 3: "strings_ToLower ?E (filepath_Ext ?E ''notes.TXT'') = ''.txt''"
    by code_simp
  have 4: "''.txt'' \<notin> set videoExtensions" by (simp add: videoExtensions_def)
  have 5: "strings_ToLower ?E (filepath_Ext ?E ''notes.TXT'') \<notin> set videoExtensions"
    using 3 4 by simp
  show ?thesis
    using 1 3 4 FindVideoFiles_unsupported_extension [OF 1 2 5, of False] by simp
qed

section \<open>The fallback chain\<close>

lemma printf_world [simp]: "world (printf m s) = world s"
  by (simp add: printf_def)

lemma printf_invocations [simp]: "invocations (printf m s) = invocations s"
  by (simp add: printf_def)

lemma reportCompleted_world [simp]: "world (reportCompleted E s i o') = world s"
  by (simp add: reportCompleted_def split: sum.split)

lemma reportCompleted_invocations [simp]:
  "invocations (reportCompleted E s i o') = invocations s"
  by (simp add: reportCompleted_def split: sum.split)

lemma runFFmpeg_eq:
  "exec_ffmpeg E (world s) args = (w, e, d) \<Longrightarrow>
     runFFmpeg E s args = (e, d, s\<lparr>world := w, invocations := invocations s @ [args]\<rparr>)"
  by (simp add: runFFmpeg_def)

lemma handleEncodingError_NoGPU:
  "NoGPU (config t) \<Longrightarrow>
     handleEncodingError E t s ffmpegErr stderrOutput inputPath outputPath preset =
       (Some (NewTranscoderError ErrorTypeEncodingFailed
                (''encoding failed for '' @ inputPath) (Some ffmpegErr)), s)"
  by (simp add: handleEncodingError_def)

lemma handleEncodingError_fallback:
  assumes "\<not> NoGPU (config t)"
    and "exec_ffmpeg E (world s) (buildFFmpegArgs t inputPath outputPath preset False) = (w2, e2, d2)"
    and "exec_ffmpeg E w2 (createSafeFallbackArgs inputPath outputPath) = (w3, e3, d3)"
  shows "fst (handleEncodingError E t s ffmpegErr stderrOutput inputPath outputPath preset) =
           (if e2 = None \<or> e3 = None then None
            else Some (NewTranscoderError ErrorTypeEncodingFailed
                         (''all encoding attempts failed for '' @ inputPath) e3))"
    and "invocations (snd (handleEncodingError E t s ffmpegErr stderrOutput
                             inputPath outputPath preset)) =
           invocations s @
             (if e2 = None then [buildFFmpegArgs t inputPath outputPath preset False]
              else [buildFFmpegArgs t inputPath outputPath preset False,
                    createSafeFallbackArgs inputPath outputPath])"
    and "world (snd (handleEncodingError E t s ffmpegErr stderrOutput
                       inputPath outputPath preset)) = (if e2 = None then w2 else w3)"
  using assms
  by (auto simp: handleEncodingError_def Let_def runFFmpeg_def split: option.splits)

lemma processFile_encode_chain:
  assumes "exec_ffmpeg E (world s)
             (buildFFmpegArgs t inputPath outputPath preset (\<not> NoGPU (config t))) = (w1, e1, d1)"
    and "exec_ffmpeg E w1 (buildFFmpegArgs t inputPath outputPath preset False) = (w2, e2, d2)"
    and "exec_ffmpeg E w2 (createSafeFallbackArgs inputPath outputPath) = (w3, e3, d3)"
  shows
    "(\<not> NoGPU (config t) \<longrightarrow>
        invocations (snd (processFile_encode E t s inputPath outputPath preset)) =
          invocations s @
            buildFFmpegArgs t inputPath outputPath preset True #
              (if e1 = None then []
               else buildFFmpegArgs t inputPath outputPath preset False #
                      (if e2 = None then [] else [createSafeFallbackArgs inputPath outputPath])) \<and>
        fst (processFile_encode E t s inputPath outputPath preset) =
          (if e1 = None \<or> e2 = None \<or> e3 = None then None
           else Some (NewTranscoderError ErrorTypeEncodingFailed
                        (''all encoding attempts failed for '' @ inputPath) e3))) \<and>
     (NoGPU (config t) \<longrightarrow>
        invocations (snd (processFile_encode E t s inputPath outputPath preset)) =
          invocations s @ [buildFFmpegArgs t inputPath outputPath preset False] \<and>
        fst (processFile_encode E t s inputPath outputPath preset) =
          (if e1 = None then None
           else Some (NewTranscoderError ErrorTypeEncodingFailed
                        (''encoding failed for '' @ inputPath) e1)))"
proof -
  define args where "args = buildFFmpegArgs t inputPath outputPath preset (\<not> NoGPU (config t))"
  define s0 where "s0 = (if Verbose (config t)
                         then printf (Running (if NoGPU (config t) then ''software''
                                               else ''hardware'') args) s
                         else s)"
  have s0: "world s0 = world s" "invocations s0 = invocations s"
    by (simp_all add: s0_def)
  define s1 where "s1 = s0\<lparr>world := w1, invocations := invocations s0 @ [args]\<rparr>"
  have s1: "world s1 = w1" "invocations s1 = invocations s @ [args]"
    by (simp_all add: s1_def s0)
  have "exec_ffmpeg E (world s0) args = (w1, e1, d1)"
    using assms(1) by (simp add: s0 args_def)
  then have run: "runFFmpeg E s0 args = (e1, d1, s1)"
    unfolding s1_def by (rule runFFmpeg_eq)
  have enc: "processFile_encode E t s inputPath outputPath preset =
               (case e1 of
                  Some ffmpegErr \<Rightarrow>
                    (case handleEncodingError E t s1 ffmpegErr d1 inputPath outputPath preset of
                       (Some err, s') \<Rightarrow> (Some err, s')
                     | (None, s') \<Rightarrow> (None, reportCompleted E s' inputPath outputPath))
                | None \<Rightarrow> (None, reportCompleted E s1 inputPath outputPath))"
    unfolding processFile_encode_def Let_def args_def [symmetric] s0_def [symmetric] run
    by (simp split: option.split)
  show ?thesis
  proof (cases e1)
    case None
    then show ?thesis using enc s1 by (simp add: args_def)
  next
    case (Some err)
    show ?thesis
    proof (cases "NoGPU (config t)")
      case True
      then show ?thesis
        using enc Some s1 by (simp add: handleEncodingError_NoGPU args_def)
    next
      case False
      have w: "exec_ffmpeg E (world s1) (buildFFmpegArgs t inputPath outputPath preset False)
                 = (w2, e2, d2)"
        using assms(2) s1 by simp
      note h = handleEncodingError_fallback [OF False w assms(3), of err d1]
      obtain r s2 where rs:
        "handleEncodingError E t s1 err d1 inputPath outputPath preset = (r, s2)"
        by (cases "handleEncodingError E t s1 err d1 inputPath outputPath preset")
      have r: "r = (if e2 = None \<or> e3 = None then None
                    else Some (NewTranscoderError ErrorTypeEncodingFailed
                                 (''all encoding attempts failed for '' @ inputPath) e3))"
        using h(1) rs by simp
      have i: "invocations s2 = invocations s @ args #
                 (if e2 = None then [buildFFmpegArgs t inputPath outputPath preset False]
                  else [buildFFmpegArgs t inputPath outputPath preset False,
                        createSafeFallbackArgs inputPath outputPath])"
        using h(2) rs s1 by simp
      have "processFile_encode E t s inputPath outputPath preset =
              (case r of Some e \<Rightarrow> (Some e, s2)
                       | None \<Rightarrow> (None, reportCompleted E s2 inputPath outputPath))"
        using enc Some rs by (simp split: option.split)
      then show ?thesis
        using False Some r i by (auto simp: args_def split: option.splits)
    qed
  qed
qed


text \<open>
  Claim C1. Name the outcomes of the three possible \<open>ffmpeg\<close> runs of one encoding: the
  primary run in the given world, the software-mode run in the world the primary run leaves,
  and the safe-fallback run in the world the software run leaves. With hardware mode enabled
  the encoding runs the hardware-mode command; if it fails, the software-mode command is run
  once, next; if that fails too, the safe-fallback command is run once; nothing else is run,
  and the encoding fails only if all three fail. With \<open>NoGPU\<close> set, exactly one command is
  run, in software mode, and its failure is the failure of the encoding.
\<close>

theorem fallback_chain:
  assumes "exec_ffmpeg E (world s)
             (buildFFmpegArgs t inputPath outputPath preset (\<not> NoGPU (config t))) = (w1, e1, d1)"
    and "exec_ffmpeg E w1 (buildFFmpegArgs t inputPath outputPath preset False) = (w2, e2, d2)"
    and "exec_ffmpeg E w2 (createSafeFallbackArgs inputPath outputPath) = (w3, e3, d3)"
  shows
    "(\<not> NoGPU (config t) \<longrightarrow>
        invocations (snd (processFile_encode E t s inputPath outputPath preset)) =
          invocations s @
            buildFFmpegArgs t inputPath outputPath preset True #
              (if e1 = None then []
               else buildFFmpegArgs t inputPath outputPath preset False #
                      (if e2 = None then [] else [createSafeFallbackArgs inputPath outputPath])) \<and>
        fst (processFile_encode E t s inputPath outputPath preset) =
          (if e1 = None \<or> e2 = None \<or> e3 = None then None
           else Some (NewTranscoderError ErrorTypeEncodingFailed
                        (''all encoding attempts failed for '' @ inputPath) e3))) \<and>
     (NoGPU (config t) \<longrightarrow>
        invocations (snd (processFile_encode E t s inputPath outputPath preset)) =
          invocations s @ [buildFFmpegArgs t inputPath outputPath preset False] \<and>
        fst (processFile_encode E t s inputPath outputPath preset) =
          (if e1 = None then None
           else Some (NewTranscoderError ErrorTypeEncodingFailed
                        (''encoding failed for '' @ inputPath) e1)))"
  using assms by (rule processFile_encode_chain)

text \<open>In the scripted environment: the 1080p H.264 preset on an NVIDIA system.\<close>

lemma scripted_exec:
  "exec_ffmpeg (scripted ok diag) w args =
     (if ok args then (w, None, []) else (w, Some (ExternalError ''exit status 1''), diag))"
  by (simp add: scripted_def)

lemma nvidia_hw_args:
  "buildFFmpegArgs (nvidiaTranscoder ''1080p_h264'' noGPU) ''in.mp4'' ''out/in_1080p_h264.mkv''
     (snd (nvencPresets ! 3)) True =
   [''-hide_banner'', ''-loglevel'', ''warning'', ''-hwaccel'', ''auto'', ''-i'', ''in.mp4'',
    ''-c:v'', ''h264_nvenc'', ''-preset'', ''p7'', ''-crf'', ''23'', ''-b:v'', ''5M'',
    ''-maxrate'', ''8M'', ''-bufsize'', ''16M'', ''-vf'', ''scale=1920:1080'',
    ''-c:a'', ''copy'', ''-y'', ''out/in_1080p_h264.mkv'']"
  by (simp add: buildFFmpegArgs_def nvidiaTranscoder_def nvencPresets_def)

lemma nvidia_sw_args:
  "buildFFmpegArgs (nvidiaTranscoder ''1080p_h264'' noGPU) ''in.mp4'' ''out/in_1080p_h264.mkv''
     (snd (nvencPresets ! 3)) False =
   [''-hide_banner'', ''-loglevel'', ''warning'', ''-i'', ''in.mp4'',
    ''-c:v'', ''libx264'', ''-preset'', ''medium'', ''-crf'', ''23'', ''-vf'', ''scale=1920:1080'',
    ''-b:v'', ''5M'', ''-maxrate'', ''5M'', ''-bufsize'', ''5M'',
    ''-c:a'', ''copy'', ''-y'', ''out/in_1080p_h264.mkv'']"
  by (simp add: buildFFmpegArgs_def nvidiaTranscoder_def nvencPresets_def
      convertToSoftwarePreset_shape softwareCodec_def)

lemma nvidia_NoGPU [simp]: "NoGPU (config (nvidiaTranscoder presetName noGPU)) = noGPU"
  by (simp add: nvidiaTranscoder_def)

theorem fallback_chain_witness:
  "invocations (snd (processFile_encode
       (scripted (\<lambda>args. ''-hwaccel'' \<notin> set args \<and> ''-maxrate'' \<notin> set args) ''boom'')
       (nvidiaTranscoder ''1080p_h264'' False) (initial [''in.mp4''])
       ''in.mp4'' ''out/in_1080p_h264.mkv'' (snd (nvencPresets ! 3)))) =
     [buildFFmpegArgs (nvidiaTranscoder ''1080p_h264'' False) ''in.mp4'' ''out/in_1080p_h264.mkv''
        (snd (nvencPresets ! 3)) True,
      buildFFmpegArgs (nvidiaTranscoder ''1080p_h264'' False) ''in.mp4'' ''out/in_1080p_h264.mkv''
        (snd (nvencPresets ! 3)) False,
      createSafeFallbackArgs ''in.mp4'' ''out/in_1080p_h264.mkv''] \<and>
   fst (processFile_encode
       (scripted (\<lambda>args. ''-hwaccel'' \<notin> set args \<and> ''-maxrate'' \<notin> set args) ''boom'')
       (nvidiaTranscoder ''1080p_h264'' False) (initial [''in.mp4''])
       ''in.mp4'' ''out/in_1080p_h264.mkv'' (snd (nvencPresets ! 3))) = None \<and>
   invocations (snd (processFile_encode (scripted (\<lambda>args. False) ''boom'')
       (nvidiaTranscoder ''1080p_h264'' True) (initial [''in.mp4''])
       ''in.mp4'' ''out/in_1080p_h264.mkv'' (snd (nvencPresets ! 3)))) =
     [buildFFmpegArgs (nvidiaTranscoder ''1080p_h264'' True) ''in.mp4'' ''out/in_1080p_h264.mkv''
        (snd (nvencPresets ! 3)) False] \<and>
   fst (processFile_encode (scripted (\<lambda>args. False) ''boom'')
       (nvidiaTranscoder ''1080p_h264'' True) (initial [''in.mp4''])
       ''in.mp4'' ''out/in_1080p_h264.mkv'' (snd (nvencPresets ! 3))) =
     Some (TranscoderError ''encoding_failed'' ''encoding failed for in.mp4''
             (Some (ExternalError ''exit status 1'')))"
proof -
  let ?E = "scripted (\<lambda>args. ''-hwaccel'' \<notin> set args \<and> ''-maxrate'' \<notin> set args) ''boom''"
  let ?F = "scripted (\<lambda>args. False) ''boom''"
  let ?t = "nvidiaTranscoder ''1080p_h264''"
  let ?p = "snd (nvencPresets ! 3)"
  let ?fail = "Some (ExternalError ''exit status 1'')"
  have w: "world (initial [''in.mp4'']) = [''in.mp4'']" and i: "invocations (initial [''in.mp4'']) = []"
    by (simp_all add: initial_def)
  have 1: "exec_ffmpeg ?E (world (initial [''in.mp4'']))
             (buildFFmpegArgs (?t False) ''in.mp4'' ''out/in_1080p_h264.mkv'' ?p
                (\<not> NoGPU (config (?t False)))) = ([''in.mp4''], ?fail, ''boom'')"
    by (simp add: w scripted_exec nvidia_hw_args)
  have 2: "exec_ffmpeg ?E [''in.mp4'']
             (buildFFmpegArgs (?t False) ''in.mp4'' ''out/in_1080p_h264.mkv'' ?p False)
           = ([''in.mp4''], ?fail, ''boom'')"
    by (simp add: scripted_exec nvidia_sw_args)
  have 3: "exec_ffmpeg ?E [''in.mp4''] (createSafeFallbackArgs ''in.mp4'' ''out/in_1080p_h264.mkv'')
           = ([''in.mp4''], None, [])"
    by (simp add: scripted_exec createSafeFallbackArgs_def)
  have 4: "exec_ffmpeg ?F (world (initial [''in.mp4'']))
             (buildFFmpegArgs (?t True) ''in.mp4'' ''out/in_1080p_h264.mkv'' ?p
                (\<not> NoGPU (config (?t True)))) = ([''in.mp4''], ?fail, ''boom'')"
    by (simp add: w scripted_exec)
  have 5: "exec_ffmpeg ?F [''in.mp4'']
             (buildFFmpegArgs (?t True) ''in.mp4'' ''out/in_1080p_h264.mkv'' ?p False)
           = ([''in.mp4''], ?fail, ''boom'')"
    by (simp add: scripted_exec)
  have 6: "exec_ffmpeg ?F [''in.mp4''] (createSafeFallbackArgs ''in.mp4'' ''out/in_1080p_h264.mkv'')
           = ([''in.mp4''], ?fail, ''boom'')"
    by (simp add: scripted_exec)
  show ?thesis
    using fallback_chain [OF 1 2 3] fallback_chain [OF 4 5 6]
    by (simp add: i NewTranscoderError_def ErrorTypeEncodingFailed_def)
qed

section \<open>The batch loops\<close>

text \<open>
  The loops with their error accumulator do what \<open>runEach\<close> says: every file of the list is
  processed, in order, each in the state its predecessor left, and the errors are collected.
\<close>

lemma printf_stdout [simp]: "stdout (printf m s) = stdout s @ [m]"
  by (simp add: printf_def)

lemma fold_printf_world [simp]: "world (fold (\<lambda>e. printf (f e)) es s) = world s"
  by (induction es arbitrary: s) auto

lemma fold_printf_invocations [simp]:
  "invocations (fold (\<lambda>e. printf (f e)) es s) = invocations s"
  by (induction es arbitrary: s) auto

lemma fold_printf_stdout [simp]:
  "stdout (fold (\<lambda>e. printf (f e)) es s) = stdout s @ map f es"
  by (induction es arbitrary: s) auto

lemma reportErrors_simps:
  "fst (reportErrors errors s) =
     (if errors = [] then None else Some (Errorf ''transcoding completed with errors''))"
  "world (snd (reportErrors errors s)) = world s"
  "invocations (snd (reportErrors errors s)) = invocations s"
  "stdout (snd (reportErrors errors s)) =
     stdout s @ (if errors = [] then []
                 else CompletedWithErrors (length errors) # map (\<lambda>err. ErrorLine (Error err)) errors)"
  by (simp_all add: reportErrors_def)

lemma failures_append: "failures (rs @ rs') = failures rs @ failures rs'"
  by (induction rs rule: failures.induct) auto

lemma length_failures: "length (failures rs) \<le> length rs"
  by (induction rs rule: failures.induct) auto

lemma length_runEach: "length (fst (runEach step s xs)) = length xs"
proof (induction xs arbitrary: s)
  case Nil
  then show ?case by simp
next
  case (Cons x xs)
  obtain r s' where step: "step s x = (r, s')" by (cases "step s x")
  obtain rs s'' where rest: "runEach step s' xs = (rs, s'')" by (cases "runEach step s' xs")
  then have "length rs = length xs" using Cons.IH [of s'] by simp
  then show ?case using step rest by simp
qed

lemma ProcessFiles_loop_runEach:
  "ProcessFiles_loop E t files errors s =
     (errors @ failures (fst (runEach (processFile E t) s files)),
      snd (runEach (processFile E t) s files))"
proof (induction files arbitrary: errors s)
  case Nil
  then show ?case by simp
next
  case (Cons f fs)
  obtain r s' where step: "processFile E t s f = (r, s')"
    by (cases "processFile E t s f")
  obtain rs s'' where rest: "runEach (processFile E t) s' fs = (rs, s'')"
    by (cases "runEach (processFile E t) s' fs")
  show ?case
    using step rest Cons.IH [of _ s'] by (cases r) simp_all
qed

lemma ProcessFilesWithProgress_loop_runEach:
  "ProcessFilesWithProgress_loop E t csvWriter n i files errors s =
     (errors @ failures (fst (runEach (progressStep E t csvWriter n) s
                                (zip [i..<i + length files] files))),
      snd (runEach (progressStep E t csvWriter n) s (zip [i..<i + length files] files)))"
proof (induction files arbitrary: errors s i)
  case Nil
  then show ?case by simp
next
  case (Cons f fs)
  obtain r s' where step: "processFileWithAnalytics E t s f csvWriter = (r, s')"
    by (cases "processFileWithAnalytics E t s f csvWriter")
  let ?s = "printf (Progress (i + 1) n) s'"
  have "[i..<i + length (f # fs)] = i # [Suc i..<Suc i + length fs]"
    by (simp add: upt_conv_Cons del: upt_Suc)
  then have z: "zip [i..<i + length (f # fs)] (f # fs) =
             (i, f) # zip [Suc i..<Suc i + length fs] fs"
    by simp
  obtain rs s'' where rest:
    "runEach (progressStep E t csvWriter n) ?s (zip [Suc i..<Suc i + length fs] fs) = (rs, s'')"
    by (cases "runEach (progressStep E t csvWriter n) ?s (zip [Suc i..<Suc i + length fs] fs)")
  have ps: "progressStep E t csvWriter n s (i, f) = (r, ?s)"
    using step by (simp add: progressStep_def)
  show ?case
    unfolding z using step rest ps Cons.IH [of "Suc i" _ ?s] by (cases r) simp_all
qed


text \<open>Processing one file prints no progress line; the loop prints one after each file.\<close>

lemma runFFmpeg_progress:
  "runFFmpeg E s args = (e, d, s') \<Longrightarrow>
     filter isProgress (stdout s') = filter isProgress (stdout s)"
  by (auto simp: runFFmpeg_def split: prod.splits)

lemma probeInputFile_progress:
  "probeInputFile E s i = (r, s') \<Longrightarrow>
     filter isProgress (stdout s') = filter isProgress (stdout s)"
  by (auto simp: probeInputFile_def split: prod.splits option.splits dest: runFFmpeg_progress)

lemma reportCompleted_progress:
  "filter isProgress (stdout (reportCompleted E s i o')) = filter isProgress (stdout s)"
  by (simp add: reportCompleted_def split: sum.split)

lemma handleEncodingError_progress:
  assumes "handleEncodingError E t s err d i o' p = (r, s')"
  shows "filter isProgress (stdout s') = filter isProgress (stdout s)"
proof (cases "NoGPU (config t)")
  case True
  then show ?thesis using assms by (simp add: handleEncodingError_def)
next
  case False
  define s0 where "s0 = (if Verbose (config t) then printf HardwareFailedVerbose s
                         else printf (HardwareFailed (filepath_Base E i)) s)"
  have s0: "filter isProgress (stdout s0) = filter isProgress (stdout s)"
    by (simp add: s0_def)
  obtain e1 d1 s1 where r1: "runFFmpeg E s0 (buildFFmpegArgs t i o' p False) = (e1, d1, s1)"
    by (cases "runFFmpeg E s0 (buildFFmpegArgs t i o' p False)")
  obtain e2 d2 s2 where r2: "runFFmpeg E s1 (createSafeFallbackArgs i o') = (e2, d2, s2)"
    by (cases "runFFmpeg E s1 (createSafeFallbackArgs i o')")
  have p1: "filter isProgress (stdout s1) = filter isProgress (stdout s)"
    using runFFmpeg_progress [OF r1] s0 by simp
  have p2: "filter isProgress (stdout s2) = filter isProgress (stdout s)"
    using runFFmpeg_progress [OF r2] p1 by simp
  have "handleEncodingError E t s err d i o' p =
          (case e1 of
             Some e \<Rightarrow>
               (case e2 of
                  Some safeErr \<Rightarrow>
                    (Some (NewTranscoderError ErrorTypeEncodingFailed
                             (''all encoding attempts failed for '' @ i) (Some safeErr)), s2)
                | None \<Rightarrow> (None, printf (SafeFallbackSucceeded (filepath_Base E i)) s2))
           | None \<Rightarrow> (None, printf (SoftwareFallbackSucceeded (filepath_Base E i)) s1))"
    unfolding handleEncodingError_def Let_def s0_def [symmetric]
    using False r1 r2 by (simp split: option.split)
  then show ?thesis using assms p1 p2 by (auto split: option.splits)
qed

lemma processFile_encode_progress:
  assumes "processFile_encode E t s i o' p = (r, s')"
  shows "filter isProgress (stdout s') = filter isProgress (stdout s)"
proof -
  define args where "args = buildFFmpegArgs t i o' p (\<not> NoGPU (config t))"
  define s0 where "s0 = (if Verbose (config t)
                         then printf (Running (if NoGPU (config t) then ''software''
                                               else ''hardware'') args) s
                         else s)"
  have s0: "filter isProgress (stdout s0) = filter isProgress (stdout s)"
    by (simp add: s0_def)
  obtain e1 d1 s1 where r1: "runFFmpeg E s0 args = (e1, d1, s1)"
    by (cases "runFFmpeg E s0 args")
  have p1: "filter isProgress (stdout s1) = filter isProgress (stdout s)"
    using runFFmpeg_progress [OF r1] s0 by simp
  have enc: "processFile_encode E t s i o' p =
               (case e1 of
                  Some ffmpegErr \<Rightarrow>
                    (case handleEncodingError E t s1 ffmpegErr d1 i o' p of
                       (Some err, s') \<Rightarrow> (Some err, s')
                     | (None, s') \<Rightarrow> (None, reportCompleted E s' i o'))
                | None \<Rightarrow> (None, reportCompleted E s1 i o'))"
    unfolding processFile_encode_def Let_def args_def [symmetric] s0_def [symmetric] r1
    by (simp split: option.split)
  show ?thesis
  proof (cases e1)
    case None
    then show ?thesis using enc assms p1 by (auto simp: reportCompleted_progress)
  next
    case (Some err)
    obtain r2 s2 where h: "handleEncodingError E t s1 err d1 i o' p = (r2, s2)"
      by (cases "handleEncodingError E t s1 err d1 i o' p")
    have "filter isProgress (stdout s2) = filter isProgress (stdout s)"
      using handleEncodingError_progress [OF h] p1 by simp
    then show ?thesis
      using enc assms Some h by (auto simp: reportCompleted_progress split: option.splits)
  qed
qed


lemma processFile_no_preset:
  "presets t (Preset (config t)) = None \<Longrightarrow>
     processFile E t s inputPath =
       (Some (NewTranscoderError ErrorTypeInvalidPreset
                (''preset '' @ Preset (config t) @ '' not found'') None), s)"
  by (simp add: processFile_def)

lemma processFile_unfold:
  assumes "presets t (Preset (config t)) = Some preset"
    and "ip = SanitizeWindowsPath E (world s) inputPath"
    and "s0 = (if Verbose (config t) then printf Probing s else s)"
    and "probeInputFile E s0 ip = (pe, s1)"
    and "op = SanitizeWindowsPath E (world s1)
                (GenerateOutputPath E (world s1) ip (OutputDir (config t))
                   (InputPath (config t)) preset)"
    and "os_MkdirAll E (world s1) (filepath_Dir E op) = (w, me)"
    and "s2 = (if Verbose (config t) then printf (Processing ip op) (s1\<lparr>world := w\<rparr>)
               else s1\<lparr>world := w\<rparr>)"
  shows "processFile E t s inputPath =
     (case ValidateFilePath E ip of
        Some err \<Rightarrow> (Some (Errorf (''invalid file path: '' @ Error err)), s)
      | None \<Rightarrow>
         (case pe of
            Some err \<Rightarrow> (Some (Errorf (''input file validation failed: '' @ Error err)), s1)
          | None \<Rightarrow>
             if \<not> Overwrite (config t) \<and> \<not> isl (os_Stat E (world s1) op)
             then (None, if Verbose (config t) then printf (Skipping ip) s1 else s1)
             else (case me of
                     Some err \<Rightarrow>
                       (Some (NewTranscoderError ErrorTypeFileSystemError
                                ''failed to create output directory'' (Some err)),
                        s1\<lparr>world := w\<rparr>)
                   | None \<Rightarrow> processFile_encode E t s2 ip op preset)))"
  using assms(1) assms(4) assms(6)
  unfolding assms(7) assms(5) assms(3) assms(2) processFile_def Let_def
  by (cases "Verbose (config t)") (simp_all split: option.split)

lemma processFile_progress:
  assumes "processFile E t s inputPath = (r, s')"
  shows "filter isProgress (stdout s') = filter isProgress (stdout s)"
proof (cases "presets t (Preset (config t))")
  case None
  then show ?thesis using assms by (simp add: processFile_no_preset)
next
  case (Some preset)
  define ip where "ip = SanitizeWindowsPath E (world s) inputPath"
  define s0 where "s0 = (if Verbose (config t) then printf Probing s else s)"
  obtain pe s1 where pr: "probeInputFile E s0 ip = (pe, s1)"
    by (cases "probeInputFile E s0 ip")
  define op where "op = SanitizeWindowsPath E (world s1)
                (GenerateOutputPath E (world s1) ip (OutputDir (config t))
                   (InputPath (config t)) preset)"
  obtain w me where mk: "os_MkdirAll E (world s1) (filepath_Dir E op) = (w, me)"
    by (cases "os_MkdirAll E (world s1) (filepath_Dir E op)")
  define s2 where "s2 = (if Verbose (config t) then printf (Processing ip op) (s1\<lparr>world := w\<rparr>)
               else s1\<lparr>world := w\<rparr>)"
  note u = processFile_unfold [OF Some ip_def s0_def pr op_def mk s2_def]
  have p0: "filter isProgress (stdout s0) = filter isProgress (stdout s)"
    by (simp add: s0_def)
  have p1: "filter isProgress (stdout s1) = filter isProgress (stdout s)"
    using probeInputFile_progress [OF pr] p0 by simp
  have p2: "filter isProgress (stdout s2) = filter isProgress (stdout s)"
    using p1 by (simp add: s2_def)
  obtain r3 s3 where enc: "processFile_encode E t s2 ip op preset = (r3, s3)"
    by (cases "processFile_encode E t s2 ip op preset")
  have p3: "filter isProgress (stdout s3) = filter isProgress (stdout s)"
    using processFile_encode_progress [OF enc] p2 by simp
  show ?thesis
    using assms u p1 p3 enc
    by (auto split: option.splits if_splits)
qed

lemma processFileWithAnalytics_progress:
  assumes "processFileWithAnalytics E t s inputPath csvWriter = (r, s')"
  shows "filter isProgress (stdout s') = filter isProgress (stdout s)"
proof (cases "os_Stat E (world s) inputPath")
  case (Inl err)
  then show ?thesis using assms by (simp add: processFileWithAnalytics_def)
next
  case (Inr info)
  obtain r1 s1 where pf: "processFile E t s inputPath = (r1, s1)"
    by (cases "processFile E t s inputPath")
  have "filter isProgress (stdout s1) = filter isProgress (stdout s)"
    using pf by (rule processFile_progress)
  then show ?thesis
    using assms Inr pf
    by (auto simp: processFileWithAnalytics_def Let_def split: if_splits prod.splits option.splits)
qed

lemma runEach_progress:
  "filter isProgress (stdout (snd (runEach (progressStep E t csvWriter n) s
                                      (zip [i..<i + length files] files)))) =
     filter isProgress (stdout s) @ map (\<lambda>k. Progress (k + 1) n) [i..<i + length files]"
proof (induction files arbitrary: s i)
  case Nil
  then show ?case by simp
next
  case (Cons f fs)
  obtain r s' where step: "processFileWithAnalytics E t s f csvWriter = (r, s')"
    by (cases "processFileWithAnalytics E t s f csvWriter")
  let ?s = "printf (Progress (i + 1) n) s'"
  have u: "[i..<i + length (f # fs)] = i # [Suc i..<Suc i + length fs]"
    by (simp add: upt_conv_Cons del: upt_Suc)
  have ps: "progressStep E t csvWriter n s (i, f) = (r, ?s)"
    using step by (simp add: progressStep_def)
  obtain rs s'' where rest:
    "runEach (progressStep E t csvWriter n) ?s (zip [Suc i..<Suc i + length fs] fs) = (rs, s'')"
    by (cases "runEach (progressStep E t csvWriter n) ?s (zip [Suc i..<Suc i + length fs] fs)")
  have "filter isProgress (stdout s'') =
          filter isProgress (stdout ?s) @ map (\<lambda>k. Progress (k + 1) n) [Suc i..<Suc i + length fs]"
    using Cons.IH [of ?s "Suc i"] rest by simp
  moreover have "filter isProgress (stdout ?s) = filter isProgress (stdout s) @ [Progress (i + 1) n]"
    using processFileWithAnalytics_progress [OF step] by simp
  ultimately show ?case
    unfolding u using ps rest by simp
qed


text \<open>
  Claim C2. For a list of \<open>N\<close> files, both batch functions process all \<open>N\<close> files one
  after the other, whatever the outcome of each: there are \<open>N\<close> per-file outcomes, of which
  \<open>k \<le> N\<close> are failures, the state the batch leaves is the state after the last file, and
  the result is the aggregate error if \<open>k > 0\<close> and nil otherwise. The batch with progress
  tracking prints exactly the progress lines \<open>1/N\<close>, \<open>2/N\<close>, ..., \<open>N/N\<close>.
\<close>

theorem batch_continue_on_error:
  "length (fst (runEach (processFile E t) s files)) = length files \<and>
   length (failures (fst (runEach (processFile E t) s files))) \<le> length files \<and>
   fst (ProcessFiles E t s files) =
     (if 0 < length (failures (fst (runEach (processFile E t) s files)))
      then Some (Errorf ''transcoding completed with errors'') else None) \<and>
   world (snd (ProcessFiles E t s files)) = world (snd (runEach (processFile E t) s files)) \<and>
   invocations (snd (ProcessFiles E t s files)) =
     invocations (snd (runEach (processFile E t) s files)) \<and>
   length (fst (runEach (progressStep E t csvWriter (length files)) s
                  (zip [0..<length files] files))) = length files \<and>
   length (failures (fst (runEach (progressStep E t csvWriter (length files)) s
                            (zip [0..<length files] files)))) \<le> length files \<and>
   fst (ProcessFilesWithProgress E t s files csvWriter) =
     (if 0 < length (failures (fst (runEach (progressStep E t csvWriter (length files)) s
                                      (zip [0..<length files] files))))
      then Some (Errorf ''transcoding completed with errors'') else None) \<and>
   world (snd (ProcessFilesWithProgress E t s files csvWriter)) =
     world (snd (runEach (progressStep E t csvWriter (length files)) s
                   (zip [0..<length files] files))) \<and>
   invocations (snd (ProcessFilesWithProgress E t s files csvWriter)) =
     invocations (snd (runEach (progressStep E t csvWriter (length files)) s
                         (zip [0..<length files] files))) \<and>
   filter isProgress (stdout (snd (ProcessFilesWithProgress E t s files csvWriter))) =
     filter isProgress (stdout s) @ map (\<lambda>k. Progress (k + 1) (length files)) [0..<length files]"
proof -
  let ?rs = "fst (runEach (processFile E t) s files)"
  let ?sf = "snd (runEach (processFile E t) s files)"
  let ?xs = "zip [0..<length files] files"
  let ?ps = "fst (runEach (progressStep E t csvWriter (length files)) s ?xs)"
  let ?pf = "snd (runEach (progressStep E t csvWriter (length files)) s ?xs)"
  have a: "length ?rs = length files" by (rule length_runEach)
  have b: "length (failures ?rs) \<le> length files"
    using length_failures [of ?rs] a by simp
  have pf: "ProcessFiles E t s files = reportErrors (failures ?rs) ?sf"
    by (simp add: ProcessFiles_def ProcessFiles_loop_runEach)
  have c: "fst (ProcessFiles E t s files) =
     (if 0 < length (failures ?rs)
      then Some (Errorf ''transcoding completed with errors'') else None)"
    by (simp add: pf reportErrors_simps)
  have d: "world (snd (ProcessFiles E t s files)) = world ?sf"
    by (simp add: pf reportErrors_simps)
  have e: "invocations (snd (ProcessFiles E t s files)) = invocations ?sf"
    by (simp add: pf reportErrors_simps)
  have a': "length ?ps = length files"
    by (simp add: length_runEach)
  have b': "length (failures ?ps) \<le> length files"
    using length_failures [of ?ps] a' by simp
  have pp: "ProcessFilesWithProgress E t s files csvWriter = reportErrors (failures ?ps) ?pf"
    using ProcessFilesWithProgress_loop_runEach [of E t csvWriter "length files" 0 files "[]" s]
    by (simp add: ProcessFilesWithProgress_def)
  have c': "fst (ProcessFilesWithProgress E t s files csvWriter) =
     (if 0 < length (failures ?ps)
      then Some (Errorf ''transcoding completed with errors'') else None)"
    by (simp add: pp reportErrors_simps)
  have d': "world (snd (ProcessFilesWithProgress E t s files csvWriter)) = world ?pf"
    by (simp add: pp reportErrors_simps)
  have e': "invocations (snd (ProcessFilesWithProgress E t s files csvWriter)) = invocations ?pf"
    by (simp add: pp reportErrors_simps)
  have "filter isProgress (stdout ?pf) =
          filter isProgress (stdout s) @ map (\<lambda>k. Progress (k + 1) (length files)) [0..<length files]"
    using runEach_progress [of E t csvWriter "length files" s 0 files] by simp
  then have f: "filter isProgress (stdout (snd (ProcessFilesWithProgress E t s files csvWriter))) =
     filter isProgress (stdout s) @ map (\<lambda>k. Progress (k + 1) (length files)) [0..<length files]"
    by (simp add: pp reportErrors_simps comp_def)
  from a b c d e a' b' c' d' e' f show ?thesis by (intro conjI)
qed

section \<open>A preset that is not registered\<close>

lemma runEach_no_preset:
  assumes "presets t (Preset (config t)) = None"
  shows "runEach (processFile E t) s files =
           (replicate (length files)
              (Some (NewTranscoderError ErrorTypeInvalidPreset
                       (''preset '' @ Preset (config t) @ '' not found'') None)), s)"
  by (induction files) (simp_all add: processFile_no_preset [OF assms])

lemma failures_replicate_Some: "failures (replicate n (Some e)) = replicate n e"
  by (induction n) auto

lemma processFileWithAnalytics_no_preset:
  assumes "presets t (Preset (config t)) = None"
  shows "\<exists>e s'. processFileWithAnalytics E t s f csvWriter = (Some e, s') \<and>
                 invocations s' = invocations s"
proof (cases "os_Stat E (world s) f")
  case (Inl err)
  then show ?thesis by (simp add: processFileWithAnalytics_def)
next
  case (Inr info)
  then show ?thesis
    by (auto simp: processFileWithAnalytics_def processFile_no_preset [OF assms] Let_def
        split: prod.splits option.splits)
qed

lemma runEach_progress_no_preset:
  assumes "presets t (Preset (config t)) = None"
  shows "length (failures (fst (runEach (progressStep E t csvWriter n) s xs))) = length xs \<and>
         invocations (snd (runEach (progressStep E t csvWriter n) s xs)) = invocations s"
proof (induction xs arbitrary: s)
  case Nil
  then show ?case by simp
next
  case (Cons x xs)
  obtain e s' where step: "processFileWithAnalytics E t s (snd x) csvWriter = (Some e, s')"
    and inv: "invocations s' = invocations s"
    using processFileWithAnalytics_no_preset [OF assms] by blast
  let ?s = "printf (Progress (fst x + 1) n) s'"
  have ps: "progressStep E t csvWriter n s x = (Some e, ?s)"
    using step by (simp add: progressStep_def)
  obtain rs s'' where rest: "runEach (progressStep E t csvWriter n) ?s xs = (rs, s'')"
    by (cases "runEach (progressStep E t csvWriter n) ?s xs")
  have "length (failures rs) = length xs \<and> invocations s'' = invocations ?s"
    using Cons.IH [of ?s] rest by simp
  then show ?case using ps rest inv by simp
qed

text \<open>
  Claim C5, amended. When the configured preset name is not in the transcoder's preset map,
  processing a file returns an \<open>invalid_preset\<close> error and leaves the state as it was: the
  file is neither probed nor encoded. Both batch functions still go through the whole list
  of \<open>N\<close> files, run no \<open>ffmpeg\<close> process at all, and return the aggregate error
  \<open>transcoding completed with errors\<close> when the list is not empty, nil when it is empty.
  That every file is visited shows in the output: \<open>ProcessFiles\<close> prints the count of \<open>N\<close>
  errors followed by the \<open>N\<close> lines of the \<open>invalid_preset\<close> error, and nothing else;
  \<open>ProcessFilesWithProgress\<close> prints the progress lines \<open>1/N\<close>, ..., \<open>N/N\<close> and ends with
  the count of \<open>N\<close> errors and \<open>N\<close> error lines.
\<close>

theorem missing_preset:
  assumes "presets t (Preset (config t)) = None"
  shows "processFile E t s f =
           (Some (TranscoderError ErrorTypeInvalidPreset
                    (''preset '' @ Preset (config t) @ '' not found'') None), s) \<and>
         IsTranscoderError (fst (processFile E t s f)) ErrorTypeInvalidPreset \<and>
         fst (ProcessFiles E t s files) =
           (if files = [] then None else Some (Errorf ''transcoding completed with errors'')) \<and>
         invocations (snd (ProcessFiles E t s files)) = invocations s \<and>
         world (snd (ProcessFiles E t s files)) = world s \<and>
         stdout (snd (ProcessFiles E t s files)) =
           stdout s @
             (if files = [] then []
              else CompletedWithErrors (length files) #
                   replicate (length files)
                     (ErrorLine (Error (TranscoderError ErrorTypeInvalidPreset
                                          (''preset '' @ Preset (config t) @ '' not found'') None)))) \<and>
         fst (ProcessFilesWithProgress E t s files csvWriter) =
           (if files = [] then None else Some (Errorf ''transcoding completed with errors'')) \<and>
         invocations (snd (ProcessFilesWithProgress E t s files csvWriter)) = invocations s \<and>
         filter isProgress (stdout (snd (ProcessFilesWithProgress E t s files csvWriter))) =
           filter isProgress (stdout s) @
             map (\<lambda>k. Progress (k + 1) (length files)) [0..<length files] \<and>
         (files \<noteq> [] \<longrightarrow>
            (\<exists>before errors.
               length errors = length files \<and>
               stdout (snd (ProcessFilesWithProgress E t s files csvWriter)) =
                 before @ CompletedWithErrors (length files) #
                   map (\<lambda>err. ErrorLine (Error err)) errors))"
proof -
  let ?err = "NewTranscoderError ErrorTypeInvalidPreset
                (''preset '' @ Preset (config t) @ '' not found'') None"
  have a: "processFile E t s f =
           (Some (TranscoderError ErrorTypeInvalidPreset
                    (''preset '' @ Preset (config t) @ '' not found'') None), s)"
    using processFile_no_preset [OF assms] by (simp add: NewTranscoderError_def)
  have b: "IsTranscoderError (fst (processFile E t s f)) ErrorTypeInvalidPreset"
    by (simp add: a)
  have pf: "ProcessFiles E t s files = reportErrors (replicate (length files) ?err) s"
    by (simp add: ProcessFiles_def ProcessFiles_loop_runEach runEach_no_preset [OF assms]
        failures_replicate_Some)
  have c: "fst (ProcessFiles E t s files) =
           (if files = [] then None else Some (Errorf ''transcoding completed with errors''))"
    by (simp add: pf reportErrors_simps)
  have d: "invocations (snd (ProcessFiles E t s files)) = invocations s"
    by (simp add: pf reportErrors_simps)
  have e: "world (snd (ProcessFiles E t s files)) = world s"
    by (simp add: pf reportErrors_simps)
  have o: "stdout (snd (ProcessFiles E t s files)) =
           stdout s @
             (if files = [] then []
              else CompletedWithErrors (length files) #
                   replicate (length files)
                     (ErrorLine (Error (TranscoderError ErrorTypeInvalidPreset
                                          (''preset '' @ Preset (config t) @ '' not found'') None))))"
    by (simp add: pf reportErrors_simps NewTranscoderError_def)
  let ?xs = "zip [0..<length files] files"
  let ?ps = "fst (runEach (progressStep E t csvWriter (length files)) s ?xs)"
  let ?pf = "snd (runEach (progressStep E t csvWriter (length files)) s ?xs)"
  have pp: "ProcessFilesWithProgress E t s files csvWriter = reportErrors (failures ?ps) ?pf"
    using ProcessFilesWithProgress_loop_runEach [of E t csvWriter "length files" 0 files "[]" s]
    by (simp add: ProcessFilesWithProgress_def)
  have n: "length (failures ?ps) = length files" and i: "invocations ?pf = invocations s"
    using runEach_progress_no_preset [OF assms, of E csvWriter "length files" s ?xs] by simp_all
  have ne: "failures ?ps = [] \<longleftrightarrow> files = []" using n by (metis length_0_conv)
  then have g: "fst (ProcessFilesWithProgress E t s files csvWriter) =
           (if files = [] then None else Some (Errorf ''transcoding completed with errors''))"
    by (simp add: pp reportErrors_simps)
  have h: "invocations (snd (ProcessFilesWithProgress E t s files csvWriter)) = invocations s"
    by (simp add: pp reportErrors_simps i)
  have "filter isProgress (stdout ?pf) =
          filter isProgress (stdout s) @ map (\<lambda>k. Progress (k + 1) (length files)) [0..<length files]"
    using runEach_progress [of E t csvWriter "length files" s 0 files] by simp
  then have p: "filter isProgress (stdout (snd (ProcessFilesWithProgress E t s files csvWriter))) =
           filter isProgress (stdout s) @
             map (\<lambda>k. Progress (k + 1) (length files)) [0..<length files]"
    by (simp add: pp reportErrors_simps comp_def)
  have q: "files \<noteq> [] \<longrightarrow>
            (\<exists>before errors.
               length errors = length files \<and>
               stdout (snd (ProcessFilesWithProgress E t s files csvWriter)) =
                 before @ CompletedWithErrors (length files) #
                   map (\<lambda>err. ErrorLine (Error err)) errors)"
  proof
    assume "files \<noteq> []"
    then have "stdout (snd (ProcessFilesWithProgress E t s files csvWriter)) =
                 stdout ?pf @ CompletedWithErrors (length files) #
                   map (\<lambda>err. ErrorLine (Error err)) (failures ?ps)"
      using ne n by (simp add: pp reportErrors_simps)
    with n show "\<exists>before errors.
               length errors = length files \<and>
               stdout (snd (ProcessFilesWithProgress E t s files csvWriter)) =
                 before @ CompletedWithErrors (length files) #
                   map (\<lambda>err. ErrorLine (Error err)) errors"
      by blast
  qed
  from a b c d e o g h p q show ?thesis by (intro conjI)
qed

lemma nope_missing: "presets (nvidiaTranscoder ''nope'' False)
                       (Preset (config (nvidiaTranscoder ''nope'' False))) = None"
  by (simp add: nvidiaTranscoder_def GetPresets_def detectPlatform_def addNVIDIAPresets_def
      nvencPresets_def)

theorem missing_preset_witness:
  "presets (nvidiaTranscoder ''nope'' False)
     (Preset (config (nvidiaTranscoder ''nope'' False))) = None \<and>
   processFile (scripted (\<lambda>args. True) []) (nvidiaTranscoder ''nope'' False)
       (initial [''in.mp4'']) ''in.mp4'' =
     (Some (TranscoderError ''invalid_preset'' ''preset nope not found'' None),
      initial [''in.mp4'']) \<and>
   stdout (snd (ProcessFiles (scripted (\<lambda>args. True) [])
       (nvidiaTranscoder ''nope'' False) (initial [''in.mp4'']) [''in.mp4'', ''b.mkv''])) =
     [CompletedWithErrors 2, ErrorLine ''invalid_preset: preset nope not found'',
      ErrorLine ''invalid_preset: preset nope not found''] \<and>
   invocations (snd (ProcessFilesWithProgress (scripted (\<lambda>args. True) [])
       (nvidiaTranscoder ''nope'' False) (initial [''in.mp4'']) [''in.mp4'', ''b.mkv''] True)) = [] \<and>
   filter isProgress (stdout (snd (ProcessFilesWithProgress (scripted (\<lambda>args. True) [])
       (nvidiaTranscoder ''nope'' False) (initial [''in.mp4'']) [''in.mp4'', ''b.mkv''] True))) =
     [Progress 1 2, Progress 2 2]"
proof -
  have u: "[0..<2] = [0, Suc 0]" by (simp add: upt_rec)
  show ?thesis
    using nope_missing
      missing_preset [OF nope_missing, of "scripted (\<lambda>args. True) []" "initial [''in.mp4'']"
        "''in.mp4''" "[''in.mp4'', ''b.mkv'']" True]
    by (simp add: ErrorTypeInvalidPreset_def nvidiaTranscoder_def initial_def u numeral_2_eq_2)
qed

text \<open>
  The claim as stated asks for a run that aborts with an \<open>InvalidPreset\<close> error before any
  file is processed. With the unregistered preset \<open>nope\<close> and the one-file list
  \<open>in.mp4\<close>, the batch visits the file (it prints the progress line 1/1) and returns the
  aggregate error, which is not a transcoder error of type \<open>invalid_preset\<close>; with the empty
  list it returns nil.
\<close>

theorem missing_preset_counterexample:
  "presets (nvidiaTranscoder ''nope'' False)
     (Preset (config (nvidiaTranscoder ''nope'' False))) = None \<and>
   fst (ProcessFilesWithProgress (scripted (\<lambda>args. True) [])
          (nvidiaTranscoder ''nope'' False) (initial [''in.mp4'']) [''in.mp4''] False) =
     Some (Errorf ''transcoding completed with errors'') \<and>
   \<not> IsTranscoderError
        (fst (ProcessFilesWithProgress (scripted (\<lambda>args. True) [])
               (nvidiaTranscoder ''nope'' False) (initial [''in.mp4'']) [''in.mp4''] False))
        ErrorTypeInvalidPreset \<and>
   filter isProgress (stdout (snd (ProcessFilesWithProgress (scripted (\<lambda>args. True) [])
          (nvidiaTranscoder ''nope'' False) (initial [''in.mp4'']) [''in.mp4''] False))) =
     [Progress 1 1] \<and>
   fst (ProcessFiles (scripted (\<lambda>args. True) [])
          (nvidiaTranscoder ''nope'' False) (initial [''in.mp4'']) []) = None"
proof -
  let ?E = "scripted (\<lambda>args. True) []"
  let ?t = "nvidiaTranscoder ''nope'' False"
  let ?s = "initial [''in.mp4'']"
  have st: "os_Stat ?E (world ?s) ''in.mp4'' = Inr \<lparr>IsDir = False, Size = 1\<rparr>"
    by (simp add: scripted_def initial_def)
  have pf: "processFile ?E ?t ?s ''in.mp4'' =
              (Some (NewTranscoderError ErrorTypeInvalidPreset
                       (''preset '' @ Preset (config ?t) @ '' not found'') None), ?s)"
    using nope_missing by (rule processFile_no_preset)
  have pa: "processFileWithAnalytics ?E ?t ?s ''in.mp4'' False =
              (Some (NewTranscoderError ErrorTypeInvalidPreset
                       (''preset '' @ Preset (config ?t) @ '' not found'') None), ?s)"
    by (simp add: processFileWithAnalytics_def st pf)
  have st0: "stdout ?s = []" by (simp add: initial_def)
  have pp: "ProcessFilesWithProgress ?E ?t ?s [''in.mp4''] False =
              reportErrors [NewTranscoderError ErrorTypeInvalidPreset
                              (''preset '' @ Preset (config ?t) @ '' not found'') None]
                (printf (Progress 1 1) ?s)"
    by (simp add: ProcessFilesWithProgress_def pa)
  have r: "fst (ProcessFilesWithProgress ?E ?t ?s [''in.mp4''] False) =
             Some (Errorf ''transcoding completed with errors'')"
    by (simp add: pp reportErrors_simps)
  have p: "filter isProgress (stdout (snd (ProcessFilesWithProgress ?E ?t ?s [''in.mp4''] False)))
             = [Progress 1 1]"
    by (simp add: pp reportErrors_simps st0)
  have e: "fst (ProcessFiles ?E ?t ?s []) = None"
    by (simp add: ProcessFiles_def reportErrors_simps)
  show ?thesis using nope_missing r p e by simp
qed

section \<open>Skipping a file whose output exists\<close>

lemma probeInputFile_eq:
  "exec_ffmpeg E (world s) (probeArgs ip) = (w, e, d) \<Longrightarrow>
     probeInputFile E s ip =
       (case e of
          Some err \<Rightarrow>
            Some (NewTranscoderError ErrorTypeEncodingFailed ''input file probe failed''
                    (Some (Errorf (Error err @ [CHR 0x0A] @ ''FFmpeg output: '' @ d))))
        | None \<Rightarrow> None,
        s\<lparr>world := w, invocations := invocations s @ [probeArgs ip]\<rparr>)"
  by (simp add: probeInputFile_def runFFmpeg_def split: option.split)



text \<open>In the scripted environment: the file \<open>in.mp4\<close> and the 1080p H.264 preset.\<close>

lemma demo_preset:
  "presets (nvidiaTranscoder ''1080p_h264'' g)
     (Preset (config (nvidiaTranscoder ''1080p_h264'' g))) = Some (snd (nvencPresets ! 3))"
  by (simp add: nvidiaTranscoder_def GetPresets_def detectPlatform_def addNVIDIAPresets_def
      nvencPresets_def)

lemma SanitizeWindowsPath_short: "length path \<le> 260 \<Longrightarrow> SanitizeWindowsPath E w path = path"
  by (simp add: SanitizeWindowsPath_def)

lemma scripted_simps:
  "filepath_Base (scripted ok diag) = unix_Base"
  "filepath_Ext (scripted ok diag) = unix_Ext"
  "filepath_Dir (scripted ok diag) = unix_Dir"
  "filepath_Join (scripted ok diag) = unix_Join"
  "os_Stat (scripted ok diag) w path =
     (if path \<in> set w then Inr \<lparr>IsDir = False, Size = 1\<rparr>
      else Inl (ExternalError (''stat '' @ path @ '': no such file or directory'')))"
  "os_MkdirAll (scripted ok diag) w path = (w, None)"
  by (simp_all add: scripted_def)

lemma demo_base: "unix_Base ''in.mp4'' = ''in.mp4''"
  by (rule unix_Base_plain) auto

lemma demo_ext: "unix_Ext ''in.mp4'' = ''.mp4''"
  by (simp add: unix_Ext_def)

lemma demo_validate: "ValidateFilePath (scripted ok diag) ''in.mp4'' = None"
  by (simp add: ValidateFilePath_def scripted_simps demo_base HasPrefix_def)

lemma demo_sanitize: "SanitizeFilename problematicChars ''in'' = ''in''"
  by (rule sanitized_fixed)
    (simp_all add: reservedChars_def problematicChars_def HasPrefix_def TrimRight_def)

lemma demo_output:
  "GenerateOutputPath (scripted ok diag) w ''in.mp4'' ''out'' ''in.mp4'' (snd (nvencPresets ! 3))
     = ''out/in_1080p_h264.mkv''"
proof -
  have "TrimSuffix ''in.mp4'' ''.mp4'' = ''in''"
    by (simp add: TrimSuffix_def HasSuffix_def)
  then show ?thesis
    by (simp add: GenerateOutputPath_def Let_def scripted_simps demo_base demo_ext demo_sanitize
        nvencPresets_def)
qed


lemma demo_config [simp]:
  "OutputDir (config (nvidiaTranscoder presetName g)) = ''out''"
  "InputPath (config (nvidiaTranscoder presetName g)) = ''in.mp4''"
  "\<not> Overwrite (config (nvidiaTranscoder presetName g))"
  "\<not> Verbose (config (nvidiaTranscoder presetName g))"
  by (simp_all add: nvidiaTranscoder_def)




section \<open>The error after all tiers have failed\<close>

lemma handleEncodingError_ignores_stderrOutput:
  "handleEncodingError E t s ffmpegErr stderrOutput inputPath outputPath preset =
   handleEncodingError E t s ffmpegErr stderrOutput' inputPath outputPath preset"
  by (simp add: handleEncodingError_def)

lemma all_tiers_fail:
  "processFile (scripted (\<lambda>args. ''null'' \<in> set args) diag)
       (nvidiaTranscoder ''1080p_h264'' False) (initial [''in.mp4'']) ''in.mp4'' =
     (Some (NewTranscoderError ErrorTypeEncodingFailed
              (''all encoding attempts failed for '' @ ''in.mp4'')
              (Some (ExternalError ''exit status 1''))),
      snd (processFile (scripted (\<lambda>args. ''null'' \<in> set args) diag)
             (nvidiaTranscoder ''1080p_h264'' False) (initial [''in.mp4'']) ''in.mp4'')) \<and>
   invocations (snd (processFile (scripted (\<lambda>args. ''null'' \<in> set args) diag)
       (nvidiaTranscoder ''1080p_h264'' False) (initial [''in.mp4'']) ''in.mp4'')) =
     [probeArgs ''in.mp4'',
      buildFFmpegArgs (nvidiaTranscoder ''1080p_h264'' False) ''in.mp4'' ''out/in_1080p_h264.mkv''
        (snd (nvencPresets ! 3)) True,
      buildFFmpegArgs (nvidiaTranscoder ''1080p_h264'' False) ''in.mp4'' ''out/in_1080p_h264.mkv''
        (snd (nvencPresets ! 3)) False,
      createSafeFallbackArgs ''in.mp4'' ''out/in_1080p_h264.mkv'']"
proof -
  let ?E = "scripted (\<lambda>args. ''null'' \<in> set args) diag"
  let ?t = "nvidiaTranscoder ''1080p_h264'' False"
  let ?w = "[''in.mp4'']"
  let ?p = "snd (nvencPresets ! 3)"
  let ?op = "''out/in_1080p_h264.mkv''"
  let ?fail = "Some (ExternalError ''exit status 1'')"
  define s1 where "s1 = (initial ?w)\<lparr>world := ?w,
                          invocations := invocations (initial ?w) @ [probeArgs ''in.mp4'']\<rparr>"
  have s1: "world s1 = ?w" "invocations s1 = [probeArgs ''in.mp4'']"
    by (simp_all add: s1_def initial_def)
  define s2 where "s2 = s1\<lparr>world := ?w\<rparr>"
  have s2: "world s2 = ?w" "invocations s2 = [probeArgs ''in.mp4'']"
    by (simp_all add: s2_def s1)
  have w: "world (initial ?w) = ?w" by (simp add: initial_def)
  have 1: "presets ?t (Preset (config ?t)) = Some ?p" by (rule demo_preset)
  have 2: "''in.mp4'' = SanitizeWindowsPath ?E (world (initial ?w)) ''in.mp4''"
    by (simp add: SanitizeWindowsPath_short)
  have 3: "initial ?w = (if Verbose (config ?t) then printf Probing (initial ?w) else initial ?w)"
    by simp
  have "exec_ffmpeg ?E (world (initial ?w)) (probeArgs ''in.mp4'') = (?w, None, [])"
    by (simp add: scripted_exec w probeArgs_def)
  then have 4: "probeInputFile ?E (initial ?w) ''in.mp4'' = (None, s1)"
    unfolding s1_def using probeInputFile_eq by fastforce
  have 5: "?op = SanitizeWindowsPath ?E (world s1)
                   (GenerateOutputPath ?E (world s1) ''in.mp4'' (OutputDir (config ?t))
                      (InputPath (config ?t)) ?p)"
    by (simp add: demo_output SanitizeWindowsPath_short)
  have 6: "os_MkdirAll ?E (world s1) (filepath_Dir ?E ?op) = (?w, None)"
    by (simp add: scripted_simps s1)
  have 7: "s2 = (if Verbose (config ?t) then printf (Processing ''in.mp4'' ?op) (s1\<lparr>world := ?w\<rparr>)
                 else s1\<lparr>world := ?w\<rparr>)"
    by (simp add: s2_def)
  have st: "isl (os_Stat ?E (world s1) ?op)"
    by (simp add: scripted_simps s1)
  have u: "processFile ?E ?t (initial ?w) ''in.mp4'' = processFile_encode ?E ?t s2 ''in.mp4'' ?op ?p"
    using processFile_unfold [OF 1 2 3 4 5 6 7] st by (simp add: demo_validate)
  have h1: "exec_ffmpeg ?E (world s2)
              (buildFFmpegArgs ?t ''in.mp4'' ?op ?p (\<not> NoGPU (config ?t))) = (?w, ?fail, diag)"
    by (simp add: scripted_exec s2 nvidia_hw_args)
  have h2: "exec_ffmpeg ?E ?w (buildFFmpegArgs ?t ''in.mp4'' ?op ?p False) = (?w, ?fail, diag)"
    by (simp add: scripted_exec nvidia_sw_args)
  have h3: "exec_ffmpeg ?E ?w (createSafeFallbackArgs ''in.mp4'' ?op) = (?w, ?fail, diag)"
    by (simp add: scripted_exec createSafeFallbackArgs_def)
  have c: "fst (processFile_encode ?E ?t s2 ''in.mp4'' ?op ?p) =
             Some (NewTranscoderError ErrorTypeEncodingFailed
                     (''all encoding attempts failed for '' @ ''in.mp4'') ?fail)"
    and i: "invocations (snd (processFile_encode ?E ?t s2 ''in.mp4'' ?op ?p)) =
              [probeArgs ''in.mp4'', buildFFmpegArgs ?t ''in.mp4'' ?op ?p True,
               buildFFmpegArgs ?t ''in.mp4'' ?op ?p False,
               createSafeFallbackArgs ''in.mp4'' ?op]"
    using processFile_encode_chain [OF h1 h2 h3] by (simp_all add: s2)
  show ?thesis
    unfolding u using c i by (simp add: prod_eq_iff)
qed

text \<open>
  Claim C6 says that the \<open>encoding_failed\<close> error raised after all tiers have failed carries
  the last captured diagnostic text. In the code the text of the primary attempt is passed to
  \<open>handleEncodingError\<close> and never read, the text of the software tier is collected and never
  read, and the safe tier's command is given no writer for its diagnostic stream. When the
  probe succeeds and the three encoding commands fail, each after writing \<open>diag\<close>, the error
  is the same for every \<open>diag\<close>: its cause is the exit status of the safe tier, and its text
  holds no diagnostic output.
\<close>

theorem diagnostics_not_in_error:
  "\<forall>diag.
     fst (processFile (scripted (\<lambda>args. ''null'' \<in> set args) diag)
            (nvidiaTranscoder ''1080p_h264'' False) (initial [''in.mp4'']) ''in.mp4'') =
       Some (TranscoderError ''encoding_failed'' ''all encoding attempts failed for in.mp4''
               (Some (ExternalError ''exit status 1''))) \<and>
     invocations (snd (processFile (scripted (\<lambda>args. ''null'' \<in> set args) diag)
            (nvidiaTranscoder ''1080p_h264'' False) (initial [''in.mp4'']) ''in.mp4'')) =
       [probeArgs ''in.mp4'',
        buildFFmpegArgs (nvidiaTranscoder ''1080p_h264'' False) ''in.mp4''
          ''out/in_1080p_h264.mkv'' (snd (nvencPresets ! 3)) True,
        buildFFmpegArgs (nvidiaTranscoder ''1080p_h264'' False) ''in.mp4''
          ''out/in_1080p_h264.mkv'' (snd (nvencPresets ! 3)) False,
        createSafeFallbackArgs ''in.mp4'' ''out/in_1080p_h264.mkv''] \<and>
     Error (TranscoderError ''encoding_failed'' ''all encoding attempts failed for in.mp4''
              (Some (ExternalError ''exit status 1''))) =
       ''encoding_failed: all encoding attempts failed for in.mp4 (caused by: exit status 1)''"
proof
  fix diag
  have e: "Error (TranscoderError ''encoding_failed'' ''all encoding attempts failed for in.mp4''
              (Some (ExternalError ''exit status 1''))) =
       ''encoding_failed: all encoding attempts failed for in.mp4 (caused by: exit status 1)''"
    by simp
  note a = all_tiers_fail [of diag]
  have "fst (processFile (scripted (\<lambda>args. ''null'' \<in> set args) diag)
            (nvidiaTranscoder ''1080p_h264'' False) (initial [''in.mp4'']) ''in.mp4'') =
       Some (TranscoderError ''encoding_failed'' ''all encoding attempts failed for in.mp4''
               (Some (ExternalError ''exit status 1'')))"
    using a by (simp add: prod_eq_iff NewTranscoderError_def ErrorTypeEncodingFailed_def)
  then show "fst (processFile (scripted (\<lambda>args. ''null'' \<in> set args) diag)
            (nvidiaTranscoder ''1080p_h264'' False) (initial [''in.mp4'']) ''in.mp4'') =
       Some (TranscoderError ''encoding_failed'' ''all encoding attempts failed for in.mp4''
               (Some (ExternalError ''exit status 1''))) \<and>
     invocations (snd (processFile (scripted (\<lambda>args. ''null'' \<in> set args) diag)
            (nvidiaTranscoder ''1080p_h264'' False) (initial [''in.mp4'']) ''in.mp4'')) =
       [probeArgs ''in.mp4'',
        buildFFmpegArgs (nvidiaTranscoder ''1080p_h264'' False) ''in.mp4''
          ''out/in_1080p_h264.mkv'' (snd (nvencPresets ! 3)) True,
        buildFFmpegArgs (nvidiaTranscoder ''1080p_h264'' False) ''in.mp4''
          ''out/in_1080p_h264.mkv'' (snd (nvencPresets ! 3)) False,
        createSafeFallbackArgs ''in.mp4'' ''out/in_1080p_h264.mkv''] \<and>
     Error (TranscoderError ''encoding_failed'' ''all encoding attempts failed for in.mp4''
              (Some (ExternalError ''exit status 1''))) =
       ''encoding_failed: all encoding attempts failed for in.mp4 (caused by: exit status 1)''"
    using a e by blast
qed

end
